theory Spec2Isabelle
  imports Complex_Main
begin

section \<open>Electrophoretic mobility and equilibrium pH of ionic solutions\<close>

text \<open>
  A shallow embedding of \<^verbatim>\<open>ionize/Ion/mobility.py\<close> and
  \<^verbatim>\<open>ionize/Solution/calc_pH.py\<close>.

  Conventions of the embedding.
  \<^item> Python and numpy floats are idealised as \<^typ>\<open>real\<close>; a one-dimensional numpy
    array is a \<^typ>\<open>real list\<close>, a two-dimensional one a list of rows.
  \<^item> An exception is a value \<open>Inl e\<close> of a sum type; a call of \<^verbatim>\<open>warnings.warn\<close>
    appends a diagnostic to the list returned next to the outcome, so that diagnostics
    emitted before an exception are kept.
  \<^item> Element-wise numpy operations on two arrays are \<open>map2\<close>; numpy raises on operands
    of different shapes, so statements about numeric values assume ions whose
    per-charge-state arrays all have the length of the valence vector (\<open>wf_ion\<close>).
  \<^item> The solvent's \<open>viscosity\<close>, the constants and the methods of the object model that
    are not part of these two files are fields of the records below. Division by a
    viscosity is the total division of \<^typ>\<open>real\<close>; the data model has it positive.
\<close>

subsection \<open>Data model\<close>

datatype error =
    AttributeError
  | RuntimeError string
  | ValueError
  | ZeroDivisionError
  | IndexError

datatype warning =
    InsufficientInformation
  | TemperatureOutsideRange

type_synonym 'a outcome = "(error + 'a) \<times> warning list"

text \<open>The names imported from \<^verbatim>\<open>..constants\<close>, which the two files use but do not define.\<close>

record constants =
  pitts :: real
  faraday :: real
  elementary_charge :: real
  lpm3 :: real
  onsager_fuoss :: "real list"
  kelvin :: "real \<Rightarrow> real"

record solvent =
  viscosity :: "real \<Rightarrow> real"
  dielectric :: "real \<Rightarrow> real"

text \<open>What \<^verbatim>\<open>_resolve_context\<close> supplies for an argument that is not given.\<close>

record context_defaults =
  ctx_pH :: real
  ctx_ionic_strength :: real
  ctx_temperature :: real

record ion =
  ion_name :: string
  valence :: "real list"
  z :: "int list"
  z0 :: "int list"
  L :: "real \<Rightarrow> real list"
  nightingale_function :: "(real \<Rightarrow> real) option"
  nightingale_min :: real
  nightingale_max :: real
  reference_temperature :: real
  reference_mobility :: "real list"
  ionization_fraction :: "real \<Rightarrow> real list"
  ion_solvent :: solvent
  ion_context :: context_defaults

record solution =
  ions :: "ion list"
  concentrations :: "real list"
  concentration :: "ion \<Rightarrow> real"
  hydroxide :: ion
  hydronium :: ion
  pH :: real
  ionic_strength :: real
  Kw_eff :: "real \<Rightarrow> real"
  activity_coefficient :: "real \<Rightarrow> real list \<Rightarrow> real list"

text \<open>
  Modelled from the spec: \<^verbatim>\<open>_resolve_context\<close> is not part of the two files. The spec
  has it supply pH, ionic strength and temperature "when not explicitly given": an
  argument that is given is returned as it is, a missing one comes from the ion's context.
\<close>

definition resolve_context ::
  "ion \<Rightarrow> real option \<Rightarrow> real option \<Rightarrow> real option \<Rightarrow> real \<times> real \<times> real" where
  "resolve_context self pH_arg I_arg T_arg =
     ((case pH_arg of Some v \<Rightarrow> v | None \<Rightarrow> ctx_pH (ion_context self)),
      (case I_arg of Some v \<Rightarrow> v | None \<Rightarrow> ctx_ionic_strength (ion_context self)),
      (case T_arg of Some v \<Rightarrow> v | None \<Rightarrow> ctx_temperature (ion_context self)))"

definition wf_ion :: "ion \<Rightarrow> bool" where
  "wf_ion i \<longleftrightarrow>
     length (reference_mobility i) = length (valence i) \<and>
     (\<forall>p. length (ionization_fraction i p) = length (valence i))"

subsection \<open>Mobility of a single ion\<close>

definition absolute_mobility :: "ion \<Rightarrow> real option \<Rightarrow> real list \<times> warning list" where
  "absolute_mobility self temperature_arg =
     (let (_, _, temperature) = resolve_context self None None temperature_arg in
      case nightingale_function self of
        Some f \<Rightarrow>
          (map (\<lambda>v. f temperature * (1035 / 10 ^ 13)
                     / viscosity (ion_solvent self) temperature * v) (valence self),
           if \<not> (nightingale_min self < temperature \<and> temperature < nightingale_max self)
           then [TemperatureOutsideRange] else [])
      | None \<Rightarrow>
          (map (\<lambda>m. viscosity (ion_solvent self) (reference_temperature self)
                     / viscosity (ion_solvent self) temperature * m) (reference_mobility self),
           []))"

text \<open>
  \<^verbatim>\<open>sqrt(ionic_strength) / (1. + pitts * sqrt(ionic_strength))\<close> with \<^verbatim>\<open>math.sqrt\<close>,
  which raises on a negative argument; the quotient of two Python floats raises on a
  zero denominator.
\<close>

definition pitts_term :: "constants \<Rightarrow> real \<Rightarrow> error + real" where
  "pitts_term c I =
     (if I < 0 then Inl ValueError
      else if 1 + pitts c * sqrt I = 0 then Inl ZeroDivisionError
      else Inr (sqrt I / (1 + pitts c * sqrt I)))"

text \<open>
  Both corrections divide by \<^verbatim>\<open>sqrt(kelvin(temperature) * dielectric)\<close> and raise the
  quotient or product of the two to a fractional power: a zero product ends in a division
  by zero, a negative one in the domain error of \<^verbatim>\<open>math.sqrt\<close>.
\<close>

definition kd_check :: "real \<Rightarrow> real \<Rightarrow> error option" where
  "kd_check k d =
     (if k * d = 0 then Some ZeroDivisionError
      else if k * d < 0 then Some ValueError
      else None)"

definition robinson_stokes_mobility ::
  "constants \<Rightarrow> ion \<Rightarrow> real option \<Rightarrow> real option \<Rightarrow> real list outcome" where
  "robinson_stokes_mobility c self ionic_strength_arg temperature_arg =
     (let (_, ionic_strength, temperature) =
            resolve_context self None ionic_strength_arg temperature_arg;
          dielectric = dielectric (ion_solvent self) temperature;
          viscosity = viscosity (ion_solvent self) temperature
      in case kd_check (kelvin c temperature) dielectric of
           Some e \<Rightarrow> (Inl e, [])
         | None \<Rightarrow>
            (let alpha = (1705 / 1000) * (kelvin c temperature / dielectric) powr (- 3 / 2);
                 beta = (4275 / 10 ^ 12) / sqrt (kelvin c temperature * dielectric) / viscosity;
                 (mobility, ws) = absolute_mobility self (Some temperature)
             in case pitts_term c ionic_strength of
                  Inl e \<Rightarrow> (Inl e, ws)
                | Inr t \<Rightarrow>
                    (Inr (map2 (\<lambda>m v. m - (alpha * m + beta * sgn v) * t)
                            mobility (valence self)), ws)))"

subsection \<open>The Onsager-Fuoss interaction correction\<close>

text \<open>\<^verbatim>\<open>list.index\<close>: the position of the first equal element; it raises when there is none.\<close>

fun index_of :: "'a list \<Rightarrow> 'a \<Rightarrow> error + nat" where
  "index_of [] x = Inl ValueError"
| "index_of (y # ys) x =
     (if y = x then Inr 0
      else case index_of ys x of Inl e \<Rightarrow> Inl e | Inr n \<Rightarrow> Inr (Suc n))"

text \<open>
  The list of ions of \<^verbatim>\<open>_interaction\<close>. Python's \<^verbatim>\<open>in\<close> and \<^verbatim>\<open>list.index\<close> compare
  ions with \<^verbatim>\<open>==\<close>; the model compares the records.
\<close>

definition ensemble :: "solution \<Rightarrow> ion \<Rightarrow> ion list" where
  "ensemble self ion =
     (let ions0 = filter (\<lambda>ion'. concentration self ion' > 0) (ions self)
                  @ [hydroxide self, hydronium self]
      in if ion \<notin> set ions0 then ions0 @ [ion] else ions0)"

definition start_index :: "ion list \<Rightarrow> nat \<Rightarrow> nat" where
  "start_index ens ion_index =
     (if ion_index \<noteq> 0 then length (concat (map valence (take ion_index ens))) else 0)"

definition omega_of :: "constants \<Rightarrow> ion list \<Rightarrow> real list" where
  "omega_of c ens =
     map (\<lambda>x. x / faraday c)
       (concat (map (\<lambda>ion. map2 (/) (fst (absolute_mobility ion None)) (valence ion)) ens))"

definition valences_of :: "ion list \<Rightarrow> real list" where
  "valences_of ens = concat (map valence ens)"

definition concentrations_of :: "solution \<Rightarrow> ion list \<Rightarrow> real list" where
  "concentrations_of self ens =
     concat (map (\<lambda>ion. map (\<lambda>f. concentration self ion * f)
                           (ionization_fraction ion (pH self))) ens)"

definition potential_of :: "solution \<Rightarrow> ion list \<Rightarrow> real list" where
  "potential_of self ens =
     map2 (\<lambda>cn v. cn * v ^ 2 / (2 * ionic_strength self))
       (concentrations_of self ens) (valences_of ens)"

text \<open>
  \<^verbatim>\<open>h = potential * omega / (omega + omega[:, np.newaxis])\<close>. The denominator is the
  square array whose row \<open>i\<close> is \<open>omega + omega[i]\<close>; the one-dimensional numerator is
  broadcast along the last axis, that is, divided element-wise by every row.
\<close>

definition omega_sums :: "real list \<Rightarrow> real list list" where
  "omega_sums omega = map (\<lambda>oi. map (\<lambda>oj. oj + oi) omega) omega"

definition h_matrix :: "real list \<Rightarrow> real list \<Rightarrow> real list list" where
  "h_matrix potential omega =
     map (\<lambda>row. map2 (/) (map2 (*) potential omega) row) (omega_sums omega)"

definition np_diag :: "real list \<Rightarrow> real list list" where
  "np_diag v = map (\<lambda>i. map (\<lambda>j. if i = j then v ! i else 0) [0..<length v]) [0..<length v]"

definition np_identity :: "nat \<Rightarrow> real list list" where
  "np_identity n = map (\<lambda>i. map (\<lambda>j. if i = j then 1 else 0) [0..<n]) [0..<n]"

definition d_matrix :: "real list list \<Rightarrow> real list list" where
  "d_matrix h = np_diag (map sum_list h)"

definition mat_add :: "real list list \<Rightarrow> real list list \<Rightarrow> real list list" where
  "mat_add a b = map2 (map2 (+)) a b"

definition mat_sub :: "real list list \<Rightarrow> real list list \<Rightarrow> real list list" where
  "mat_sub a b = map2 (map2 (-)) a b"

definition B_matrix :: "real list list \<Rightarrow> real list list" where
  "B_matrix h =
     mat_sub (map (map (\<lambda>x. 2 * x)) (mat_add h (d_matrix h))) (np_identity (length h))"

definition np_dot :: "real list list \<Rightarrow> real list \<Rightarrow> real list" where
  "np_dot m v = map (\<lambda>row. sum_list (map2 (*) row v)) m"

definition r0_of :: "real list \<Rightarrow> real list \<Rightarrow> real list \<Rightarrow> real list" where
  "r0_of valences potential omega =
     map2 (\<lambda>v om. v - (sum_list (map2 (*) valences potential)
                        / sum_list (map2 (/) potential omega)) / om)
       valences omega"

text \<open>The loop \<^verbatim>\<open>for i in range(1, 6): r[:, i] = np.dot(B, r[:, i-1])\<close>, column by column.\<close>

fun relax :: "real list list \<Rightarrow> nat \<Rightarrow> real list \<Rightarrow> real list list" where
  "relax B 0 r = []"
| "relax B (Suc k) r = (let r' = np_dot B r in r' # relax B k r')"

definition r_columns :: "real list list \<Rightarrow> real list \<Rightarrow> real list list" where
  "r_columns B r0 = r0 # relax B 5 r0"

text \<open>
  \<^verbatim>\<open>np.dot(onsager_fuoss, np.transpose(r))\<close>: entry \<open>k\<close> is the sum over the six columns of
  the coefficient times the column's entry \<open>k\<close>.
\<close>

definition factor_of :: "real list \<Rightarrow> real list list \<Rightarrow> nat \<Rightarrow> real list" where
  "factor_of coeffs cols n =
     map (\<lambda>k. sum_list (map2 (\<lambda>a col. a * col ! k) coeffs cols)) [0..<n]"

definition divergence_message :: string where
  "divergence_message = ''Onsager-Fuoss approximation diverges for non-mobile ions. ''"

definition interaction :: "constants \<Rightarrow> solution \<Rightarrow> ion \<Rightarrow> real list outcome" where
  "interaction c self ion =
     (let ens = ensemble self ion in
      case index_of ens ion of
        Inl e \<Rightarrow> (Inl e, [])
      | Inr ion_index \<Rightarrow>
         (let start = start_index ens ion_index;
              end_index = start + length (valence ion);
              ws = concat (map (\<lambda>ion'. snd (absolute_mobility ion' None)) ens);
              omega = omega_of c ens
          in if \<exists>x \<in> set omega. x = 0 then (Inl (RuntimeError divergence_message), ws)
             else
              (let valences = valences_of ens;
                   potential = potential_of self ens;
                   h = h_matrix potential omega;
                   B = B_matrix h;
                   cols = r_columns B (r0_of valences potential omega)
               in if length (onsager_fuoss c) \<noteq> 6 then (Inl ValueError, ws)
                  else (Inr (take (end_index - start)
                               (drop start (factor_of (onsager_fuoss c) cols (length omega)))),
                        ws))))"

definition onsager_fuoss_mobility ::
  "constants \<Rightarrow> solution option \<Rightarrow> ion \<Rightarrow> real list outcome" where
  "onsager_fuoss_mobility c ctx self =
     (let (_, ionic_strength, temperature) = resolve_context self None None None;
          dielectric = dielectric (ion_solvent self) temperature;
          viscosity = viscosity (ion_solvent self) temperature
      in case ctx of
           None \<Rightarrow> (Inl AttributeError, [])
         | Some sol \<Rightarrow>
            (case interaction c sol self of
               (Inl e, ws) \<Rightarrow> (Inl e, ws)
             | (Inr interact, ws) \<Rightarrow>
                (case kd_check (kelvin c temperature) dielectric of
                   Some e \<Rightarrow> (Inl e, ws)
                 | None \<Rightarrow>
                    (let alpha = 1971000 * sqrt 2
                                 / (kelvin c temperature * dielectric) powr (3 / 2);
                         beta = (2898 / 100) * sqrt 2 * faraday c * elementary_charge c * lpm3 c
                                / sqrt (kelvin c temperature * dielectric) / viscosity;
                         (mobility, ws') = absolute_mobility self None
                     in case pitts_term c ionic_strength of
                          Inl e \<Rightarrow> (Inl e, ws @ ws')
                        | Inr t \<Rightarrow>
                           (Inr (map2 (\<lambda>m (i, v). m - (alpha * m * i * \<bar>v\<bar> + beta * sgn v) * t)
                                   mobility (zip interact (valence self))),
                            ws @ ws')))))"

text \<open>
  \<^verbatim>\<open>actual_mobility\<close>: only \<^verbatim>\<open>AttributeError\<close> is caught; it is answered with a warning and
  the Robinson-Stokes estimate. Every other exception leaves the function as it is.
\<close>

definition actual_mobility ::
  "constants \<Rightarrow> solution option \<Rightarrow> ion \<Rightarrow> real option \<Rightarrow> real option \<Rightarrow> real list outcome" where
  "actual_mobility c ctx self ionic_strength_arg temperature_arg =
     (case onsager_fuoss_mobility c ctx self of
        (Inl AttributeError, ws) \<Rightarrow>
          (let (res, ws') = robinson_stokes_mobility c self ionic_strength_arg temperature_arg
           in (res, ws @ [InsufficientInformation] @ ws'))
      | other \<Rightarrow> other)"

subsection \<open>The equilibrium pH solver\<close>

text \<open>Python's \<^verbatim>\<open>max\<close> and \<^verbatim>\<open>min\<close> of a list raise on the empty list.\<close>

fun py_max :: "int list \<Rightarrow> error + int" where
  "py_max [] = Inl ValueError"
| "py_max (x # xs) = Inr (fold max xs x)"

fun py_min :: "int list \<Rightarrow> error + int" where
  "py_min [] = Inl ValueError"
| "py_min (x # xs) = Inr (fold min xs x)"

text \<open>The list \<^verbatim>\<open>[max(i.z)-min(i.z)+2 for i in obj.ions]\<close>.\<close>

fun spans :: "ion list \<Rightarrow> error + int list" where
  "spans [] = Inr []"
| "spans (i # rest) =
     (case py_max (z i) of Inl e \<Rightarrow> Inl e
      | Inr mx \<Rightarrow>
         (case py_min (z i) of Inl e \<Rightarrow> Inl e
          | Inr mn \<Rightarrow>
             (case spans rest of Inl e \<Rightarrow> Inl e
              | Inr ss \<Rightarrow> Inr ((mx - mn + 2) # ss))))"

definition MaxCol_of :: "ion list \<Rightarrow> error + nat" where
  "MaxCol_of ions_list =
     (case spans ions_list of Inl e \<Rightarrow> Inl e
      | Inr ss \<Rightarrow> (case py_max ss of Inl e \<Rightarrow> Inl e | Inr m \<Rightarrow> Inr (nat m)))"

text \<open>
  The assignment \<^verbatim>\<open>row[0:k] = vals\<close> on a numpy row: the slice stops at the end of the
  row, \<open>vals\<close> must have the length of the slice or length one (it is then repeated), and
  any other length raises.
\<close>

definition assign_prefix :: "nat \<Rightarrow> 'a list \<Rightarrow> 'a list \<Rightarrow> error + 'a list" where
  "assign_prefix k vals row =
     (let sl = min k (length row) in
      if length vals = sl then Inr (vals @ drop sl row)
      else if length vals = 1 then Inr (replicate sl (hd vals) @ drop sl row)
      else Inl ValueError)"

text \<open>An element-wise numpy operation on two one-dimensional arrays, with broadcasting.\<close>

definition broadcast2 :: "('a \<Rightarrow> 'b \<Rightarrow> 'c) \<Rightarrow> 'a list \<Rightarrow> 'b list \<Rightarrow> error + 'c list" where
  "broadcast2 f xs ys =
     (if length xs = length ys then Inr (map2 f xs ys)
      else if length xs = 1 then Inr (map (f (hd xs)) ys)
      else if length ys = 1 then Inr (map (\<lambda>x. f x (hd ys)) xs)
      else Inl ValueError)"

text \<open>
  \<^verbatim>\<open>numpy.convolve\<close> in its default mode \<^verbatim>\<open>full\<close>: the product of two coefficient
  sequences. numpy raises on an empty operand; every operand below is a row of width
  \<open>MaxCol\<close> (at least 2), a literal, or an earlier product, so none is empty.
\<close>

definition convolve :: "real list \<Rightarrow> real list \<Rightarrow> real list" where
  "convolve a v =
     map (\<lambda>k. sum_list (map (\<lambda>i. a ! i * v ! (k - i))
                           (filter (\<lambda>i. i \<le> k \<and> k - i < length v) [0..<length a])))
       [0..<length a + length v - 1]"

text \<open>
  The loop \<^verbatim>\<open>LMat[i, 0:len(obj.ions[i].z)+1] = obj.ions[i].L(I)\<close> over the ions, on rows
  of zeros of width \<open>MaxCol\<close>.
\<close>

fun LMat_rows :: "nat \<Rightarrow> real \<Rightarrow> ion list \<Rightarrow> error + real list list" where
  "LMat_rows MaxCol I [] = Inr []"
| "LMat_rows MaxCol I (i # rest) =
     (case assign_prefix (length (z i) + 1) (L i I) (replicate MaxCol 0) of
        Inl e \<Rightarrow> Inl e
      | Inr row \<Rightarrow>
         (case LMat_rows MaxCol I rest of Inl e \<Rightarrow> Inl e | Inr rows \<Rightarrow> Inr (row # rows)))"

text \<open>\<^verbatim>\<open>Q = 1; for j in ...: Q = numpy.convolve(Q, M[j, :])\<close>; the scalar 1 is the array \<open>[1]\<close>.\<close>

definition convolve_rows :: "real list list \<Rightarrow> real list" where
  "convolve_rows M = fold (\<lambda>row acc. convolve acc row) M [1]"

definition Q_of :: "solution \<Rightarrow> real \<Rightarrow> real list list \<Rightarrow> real list" where
  "Q_of obj I LMat = convolve (convolve_rows LMat) [- Kw_eff obj I, 0, 1]"

text \<open>One pass of the loop that builds \<open>PMat\<close>, for the index \<open>i\<close>.\<close>

definition P_row :: "solution \<Rightarrow> nat \<Rightarrow> real list list \<Rightarrow> nat \<Rightarrow> error + real list" where
  "P_row obj MaxCol LMat i =
     (if length (ions obj) \<le> i then Inl IndexError
      else
       (let z_list = z0 (ions obj ! i) in
        case assign_prefix (length z_list) (map real_of_int z_list) (replicate MaxCol 0) of
          Inl e \<Rightarrow> Inl e
        | Inr tmp \<Rightarrow>
           (let Mmod = LMat[i := map2 (*) (LMat ! i) tmp]
            in Inr (convolve [0, 1] (convolve_rows Mmod)))))"

fun P_rows :: "solution \<Rightarrow> nat \<Rightarrow> real list list \<Rightarrow> nat list \<Rightarrow> error + real list list" where
  "P_rows obj MaxCol LMat [] = Inr []"
| "P_rows obj MaxCol LMat (i # rest) =
     (case P_row obj MaxCol LMat i of Inl e \<Rightarrow> Inl e
      | Inr Pi \<Rightarrow>
         (case P_rows obj MaxCol LMat rest of Inl e \<Rightarrow> Inl e | Inr ps \<Rightarrow> Inr (Pi # ps)))"

text \<open>\<^verbatim>\<open>PMat.shape[1]\<close> after \<^verbatim>\<open>numpy.array(PMat, ndmin=2)\<close>: an empty list is a 1 by 0 array.\<close>

definition PMat_width :: "real list list \<Rightarrow> nat" where
  "PMat_width PMat = (case PMat of [] \<Rightarrow> 0 | row # _ \<Rightarrow> length row)"

text \<open>Every row of \<open>PMat\<close> times its concentration, summed over the rows.\<close>

definition P_of :: "real list list \<Rightarrow> real list \<Rightarrow> real list" where
  "P_of PMat concs =
     map (\<lambda>k. sum_list (map2 (\<lambda>row cn. row ! k * cn) PMat concs)) [0..<PMat_width PMat]"

text \<open>
  The padding step. \<open>Q\<close> is a 1 by \<open>n\<close> array, so \<^verbatim>\<open>Q.shape[1]\<close> is the length of its one
  row. For a negative \<open>SizeDiff\<close> the list \<^verbatim>\<open>[0]*SizeDiff\<close> is empty and nothing is
  appended to \<open>Q\<close>.
\<close>

definition SizeDiff_of :: "real list \<Rightarrow> real list list \<Rightarrow> int" where
  "SizeDiff_of Q PMat = int (length Q) - int (PMat_width PMat)"

definition pad :: "real list \<Rightarrow> real list \<Rightarrow> int \<Rightarrow> real list \<times> real list" where
  "pad P Q SizeDiff =
     (if SizeDiff > 0 then (P @ replicate (nat SizeDiff) 0, Q)
      else if SizeDiff < 0 then (P, Q @ replicate (nat SizeDiff) 0)
      else (P, Q))"

text \<open>
  \<^verbatim>\<open>poly = numpy.array([0] * n)\<close> is an array of integers: a slice assignment of floats
  into it stores each value rounded toward zero.
\<close>

definition trunc :: "real \<Rightarrow> int" where
  "trunc x = (if 0 \<le> x then \<lfloor>x\<rfloor> else \<lceil>x\<rceil>)"

definition add_into :: "int list \<Rightarrow> nat \<Rightarrow> real list \<Rightarrow> error + int list" where
  "add_into poly k vals =
     (case broadcast2 (+) (map real_of_int (take k poly)) vals of
        Inl e \<Rightarrow> Inl e
      | Inr added \<Rightarrow> assign_prefix k (map trunc added) poly)"

definition poly_of :: "real list \<Rightarrow> real list \<Rightarrow> error + int list" where
  "poly_of P Q =
     (case add_into (replicate (max (length P) 1) 0) (length P + 1) P of
        Inl e \<Rightarrow> Inl e
      | Inr poly \<Rightarrow> add_into poly (length Q + 1) Q)"

text \<open>
  The state of \<^verbatim>\<open>calc_pH\<close> at the comment \<^verbatim>\<open># Construct polynomial.\<close>: the padded \<open>P\<close> and
  \<open>Q\<close>, or the exception raised before.
\<close>

definition padded_PQ :: "solution \<Rightarrow> real \<Rightarrow> error + (real list \<times> real list)" where
  "padded_PQ obj I =
     (case MaxCol_of (ions obj) of Inl e \<Rightarrow> Inl e
      | Inr MaxCol \<Rightarrow>
         (case LMat_rows MaxCol I (ions obj) of Inl e \<Rightarrow> Inl e
          | Inr LMat \<Rightarrow>
             (let Q = Q_of obj I LMat in
              case P_rows obj MaxCol LMat [0..<length (concentrations obj)] of
                Inl e \<Rightarrow> Inl e
              | Inr PMat \<Rightarrow>
                  Inr (pad (P_of PMat (concentrations obj)) Q (SizeDiff_of Q PMat)))))"

text \<open>The polynomial handed to \<^verbatim>\<open>numpy.roots\<close>, in descending powers.\<close>

definition combined_polynomial :: "solution \<Rightarrow> real \<Rightarrow> error + int list" where
  "combined_polynomial obj I =
     (case padded_PQ obj I of Inl e \<Rightarrow> Inl e
      | Inr (P, Q) \<Rightarrow> (case poly_of P Q of Inl e \<Rightarrow> Inl e | Inr poly \<Rightarrow> Inr (rev poly)))"

definition physical :: "complex \<Rightarrow> bool" where
  "physical r \<longleftrightarrow> Re r > 0 \<and> Im r = 0"

text \<open>
  \<^verbatim>\<open>calc_pH\<close>. The root finder \<^verbatim>\<open>numpy.roots\<close> is a parameter. \<^verbatim>\<open>math.log10\<close> raises on
  an argument that is not positive.
\<close>

definition calc_pH :: "(int list \<Rightarrow> complex list) \<Rightarrow> solution \<Rightarrow> real \<Rightarrow> error + real" where
  "calc_pH roots obj I =
     (case combined_polynomial obj I of Inl e \<Rightarrow> Inl e
      | Inr poly \<Rightarrow>
         (case filter physical (roots poly) of
            [] \<Rightarrow> Inl IndexError
          | r # _ \<Rightarrow>
             (let cH = Re r in
              case activity_coefficient obj I [1] of
                [] \<Rightarrow> Inl IndexError
              | g # _ \<Rightarrow>
                 (if cH * g \<le> 0 then Inl ValueError
                  else Inr (- log 10 (cH * g))))))"

subsection \<open>The polynomial of the specification\<close>

text \<open>
  Following the words of the specification, for comparison with \<open>combined_polynomial\<close>:
  the padded \<open>P\<close> and \<open>Q\<close> are summed coefficient-wise into the final polynomial, which
  is reversed into descending powers.
\<close>

definition spec_polynomial :: "solution \<Rightarrow> real \<Rightarrow> error + real list" where
  "spec_polynomial obj I =
     (case padded_PQ obj I of Inl e \<Rightarrow> Inl e
      | Inr (P, Q) \<Rightarrow> Inr (rev (map2 (+) P Q)))"

text \<open>The value of a polynomial given by its coefficients in descending powers.\<close>

definition poly_value :: "'a::comm_ring_1 list \<Rightarrow> 'a \<Rightarrow> 'a" where
  "poly_value p x = foldl (\<lambda>acc a. acc * x + a) 0 p"

text \<open>A root finder is sound on \<open>p\<close> when everything it returns for \<open>p\<close> is a root of \<open>p\<close>.\<close>

definition returns_roots :: "(int list \<Rightarrow> complex list) \<Rightarrow> int list \<Rightarrow> bool" where
  "returns_roots roots p \<longleftrightarrow>
     list_all (\<lambda>r. poly_value (map complex_of_int p) r = 0) (roots p)"

subsection \<open>Sample data\<close>

text \<open>
  Small constants, ions and solutions on which the statements below are exercised. The
  numbers are chosen for exact arithmetic, not for chemistry.
\<close>

definition sample_constants :: constants where
  "sample_constants =
     \<lparr>pitts = 3 / 2, faraday = 1, elementary_charge = 1, lpm3 = 1,
      onsager_fuoss = [1, 1, 1, 1, 1, 1], kelvin = (\<lambda>T. T + 27315 / 100)\<rparr>"

definition sample_solvent :: solvent where
  "sample_solvent = \<lparr>viscosity = (\<lambda>T. 1), dielectric = (\<lambda>T. 80)\<rparr>"

definition sample_context :: context_defaults where
  "sample_context = \<lparr>ctx_pH = 7, ctx_ionic_strength = 1 / 2, ctx_temperature = 25\<rparr>"

text \<open>An ion with the viscosity-ratio calibration and one charge state per valence.\<close>

definition sample_ion :: "string \<Rightarrow> int list \<Rightarrow> real list \<Rightarrow> ion" where
  "sample_ion name zs mobs =
     \<lparr>ion_name = name, valence = map real_of_int zs, z = zs, z0 = sort (0 # zs),
      L = (\<lambda>I. replicate (length zs + 1) 1),
      nightingale_function = None, nightingale_min = 0, nightingale_max = 0,
      reference_temperature = 25, reference_mobility = mobs,
      ionization_fraction = (\<lambda>p. replicate (length zs) 1),
      ion_solvent = sample_solvent, ion_context = sample_context\<rparr>"

definition ion_A :: ion where "ion_A = sample_ion ''A'' [- 1] [- 2]"
definition ion_B :: ion where "ion_B = sample_ion ''B'' [1] [3]"
definition ion_D :: ion where "ion_D = sample_ion ''D'' [- 2, - 1] [- 6, - 1]"
definition ion_Z :: ion where "ion_Z = sample_ion ''Z'' [1] [0]"
definition ion_OH :: ion where "ion_OH = sample_ion ''OH'' [- 1] [- 5]"
definition ion_H :: ion where "ion_H = sample_ion ''H'' [1] [4]"

text \<open>An ion with the Nightingale calibration, valid between 0 and 100 degrees.\<close>

definition ion_N :: ion where
  "ion_N = (sample_ion ''N'' [1] [3])
             \<lparr>nightingale_function := Some (\<lambda>T. T + 1),
              nightingale_min := 0, nightingale_max := 100\<rparr>"

text \<open>A solution that looks concentrations up by the ion's name, 0 for an ion it lacks.\<close>

definition sample_solution :: "ion list \<Rightarrow> real list \<Rightarrow> solution" where
  "sample_solution is cs =
     \<lparr>ions = is, concentrations = cs,
      concentration =
        (\<lambda>i. case map_of (zip (map ion_name is) cs) (ion_name i) of
                Some cn \<Rightarrow> cn | None \<Rightarrow> 0),
      hydroxide = ion_OH, hydronium = ion_H, pH = 7, ionic_strength = 1 / 2,
      Kw_eff = (\<lambda>I. 4), activity_coefficient = (\<lambda>I charges. [1])\<rparr>"

definition solution_AB :: solution where
  "solution_AB = sample_solution [ion_A, ion_B] [1, 2]"

definition solution_A0B :: solution where
  "solution_A0B = sample_solution [ion_A, ion_B] [0, 2]"

definition solution_Z :: solution where
  "solution_Z = sample_solution [ion_Z] [1]"

definition solution_AD :: solution where
  "solution_AD = sample_solution [ion_A, ion_D] [1, 2]"

definition pure_water :: solution where
  "pure_water = (sample_solution [] []) \<lparr>Kw_eff := (\<lambda>I. 1 / 10 ^ 14)\<rparr>"

text \<open>
  A monoprotic weak acid with acidity constant \<open>10^-5\<close> at concentration \<open>0.1\<close>, in
  water with \<open>Kw = 10^-14\<close>.
\<close>

definition weak_acid :: ion where
  "weak_acid = (sample_ion ''HA'' [- 1] [- 2]) \<lparr>L := (\<lambda>I. [1 / 10 ^ 5, 1])\<rparr>"

definition weak_acid_solution :: solution where
  "weak_acid_solution =
     (sample_solution [weak_acid] [1 / 10]) \<lparr>Kw_eff := (\<lambda>I. 1 / 10 ^ 14)\<rparr>"

section \<open>Properties\<close>

subsection \<open>Mobility of a single ion\<close>

lemma kd_check_positive: "0 < k \<Longrightarrow> 0 < d \<Longrightarrow> kd_check k d = None"
  by (simp add: kd_check_def mult_less_0_iff not_less_iff_gr_or_eq)

lemma pitts_term_zero: "pitts_term c 0 = Inr 0"
  by (simp add: pitts_term_def)

lemma length_absolute_mobility:
  "wf_ion self \<Longrightarrow> length (fst (absolute_mobility self T)) = length (valence self)"
  by (simp add: absolute_mobility_def resolve_context_def wf_ion_def split: option.splits)

lemma absolute_mobility_resolved:
  "absolute_mobility self (Some (snd (snd (resolve_context self p i T)))) = absolute_mobility self T"
  by (simp add: absolute_mobility_def resolve_context_def split: option.splits)

lemma map2_keep: "length xs = length ys \<Longrightarrow> map2 (\<lambda>m v. m) xs ys = xs"
  by (induction xs ys rule: list_induct2) auto

text \<open>
  Claim C8. At ionic strength 0 the Robinson-Stokes mobility is the absolute mobility at
  the same temperature argument, value and diagnostics alike: the correction term is
  multiplied by \<open>sqrt 0 / (1 + pitts * sqrt 0) = 0\<close>. The temperature is a physical one
  (positive in kelvin) and the solvent's dielectric constant and viscosity are positive
  there, as the data model has them.
\<close>

theorem robinson_stokes_at_zero_ionic_strength:
  assumes wf: "wf_ion self"
    and k: "0 < kelvin c (snd (snd (resolve_context self None (Some 0) T)))"
    and d: "0 < dielectric (ion_solvent self) (snd (snd (resolve_context self None (Some 0) T)))"
    and v: "0 < viscosity (ion_solvent self) (snd (snd (resolve_context self None (Some 0) T)))"
  shows "robinson_stokes_mobility c self (Some 0) T =
           (Inr (fst (absolute_mobility self T)), snd (absolute_mobility self T))"
proof -
  obtain p i t where r: "resolve_context self None (Some 0) T = (p, i, t)"
    by (cases "resolve_context self None (Some 0) T") auto
  have i0: "i = 0" using r by (simp add: resolve_context_def)
  have am: "absolute_mobility self (Some t) = absolute_mobility self T"
    using absolute_mobility_resolved [of self None "Some 0" T] r by simp
  obtain mob ws where mw: "absolute_mobility self T = (mob, ws)"
    by (cases "absolute_mobility self T") auto
  have len: "length mob = length (valence self)"
    using length_absolute_mobility [OF wf, of T] mw by simp
  have kd: "kd_check (kelvin c t) (dielectric (ion_solvent self) t) = None"
  proof -
    have k': "0 < kelvin c t" and d': "0 < dielectric (ion_solvent self) t"
      using k d r by simp_all
    then show ?thesis by (rule kd_check_positive)
  qed
  show ?thesis
    unfolding robinson_stokes_mobility_def
    by (simp add: r i0 kd am mw pitts_term_zero map2_keep [OF len])
qed

theorem robinson_stokes_at_zero_ionic_strength_witness:
  "wf_ion ion_B \<and> 0 < kelvin sample_constants 25 \<and> 0 < dielectric (ion_solvent ion_B) 25
   \<and> 0 < viscosity (ion_solvent ion_B) 25
   \<and> robinson_stokes_mobility sample_constants ion_B (Some 0) (Some 25) = (Inr [3], [])"
proof -
  have wf: "wf_ion ion_B"
    by (simp add: wf_ion_def ion_B_def sample_ion_def)
  have r: "snd (snd (resolve_context ion_B None (Some 0) (Some 25))) = 25"
    by (simp add: resolve_context_def)
  have k: "0 < kelvin sample_constants 25" by (simp add: sample_constants_def)
  have d: "0 < dielectric (ion_solvent ion_B) 25"
    by (simp add: ion_B_def sample_ion_def sample_solvent_def)
  have v: "0 < viscosity (ion_solvent ion_B) 25"
    by (simp add: ion_B_def sample_ion_def sample_solvent_def)
  have am: "absolute_mobility ion_B (Some 25) = ([3], [])"
    by (simp add: absolute_mobility_def resolve_context_def ion_B_def sample_ion_def
        sample_solvent_def)
  show ?thesis
    using robinson_stokes_at_zero_ionic_strength [of ion_B sample_constants "Some 25"]
      wf k d v r am by simp
qed

lemma index_of_mem:
  "x \<in> set xs \<Longrightarrow>
     \<exists>n. index_of xs x = Inr n \<and> n < length xs \<and> xs ! n = x \<and> x \<notin> set (take n xs)"
proof (induction xs)
  case Nil
  then show ?case by simp
next
  case (Cons y ys)
  show ?case
  proof (cases "y = x")
    case True
    then show ?thesis by simp
  next
    case False
    with Cons.prems have "x \<in> set ys" by simp
    from Cons.IH [OF this] obtain n where
      n: "index_of ys x = Inr n" "n < length ys" "ys ! n = x" "x \<notin> set (take n ys)"
      by blast
    with False show ?thesis by simp
  qed
qed

lemma self_in_ensemble: "ion \<in> set (ensemble sol ion)"
  by (simp add: ensemble_def Let_def)

lemma interaction_not_AttributeError: "fst (interaction c sol ion) \<noteq> Inl AttributeError"
proof -
  obtain n where "index_of (ensemble sol ion) ion = Inr n"
    using index_of_mem [OF self_in_ensemble] by blast
  then show ?thesis
    by (simp add: interaction_def Let_def)
qed

lemma kd_check_not_AttributeError: "kd_check k d \<noteq> Some AttributeError"
  by (simp add: kd_check_def)

lemma pitts_term_not_AttributeError: "pitts_term c I \<noteq> Inl AttributeError"
  by (simp add: pitts_term_def)

lemma onsager_fuoss_AttributeError_iff:
  "fst (onsager_fuoss_mobility c ctx self) = Inl AttributeError \<longleftrightarrow> ctx = None"
proof (cases ctx)
  case None
  then show ?thesis
    by (simp add: onsager_fuoss_mobility_def Let_def split: prod.splits)
next
  case (Some sol)
  have "fst (onsager_fuoss_mobility c (Some sol) self) \<noteq> Inl AttributeError"
    using interaction_not_AttributeError [of c sol self]
      kd_check_not_AttributeError pitts_term_not_AttributeError
    by (auto simp: onsager_fuoss_mobility_def Let_def split: prod.splits sum.splits option.splits)
  with Some show ?thesis by simp
qed

lemma actual_mobility_passes:
  "fst (onsager_fuoss_mobility c ctx self) \<noteq> Inl AttributeError \<Longrightarrow>
     actual_mobility c ctx self I T = onsager_fuoss_mobility c ctx self"
  by (cases "onsager_fuoss_mobility c ctx self")
     (auto simp: actual_mobility_def split: sum.splits error.splits)

lemma onsager_fuoss_no_context:
  "onsager_fuoss_mobility c None self = (Inl AttributeError, [])"
  by (simp add: onsager_fuoss_mobility_def Let_def split: prod.splits)

lemma absolute_mobility_warnings:
  "InsufficientInformation \<notin> set (snd (absolute_mobility i T))"
  by (simp add: absolute_mobility_def resolve_context_def split: option.splits)

text \<open>
  Claim C10. When the Onsager-Fuoss path succeeds, \<open>actual_mobility\<close> returns its result
  for every choice of the ionic-strength and temperature arguments: two runs that
  differ only in these arguments return the same value and the same diagnostics.
\<close>

theorem actual_mobility_ignores_arguments:
  assumes "onsager_fuoss_mobility c ctx self = (Inr v, ws)"
  shows "actual_mobility c ctx self I1 T1 = (Inr v, ws)
         \<and> actual_mobility c ctx self I1 T1 = actual_mobility c ctx self I2 T2"
  using assms by (simp add: actual_mobility_def)

lemma omega_of_zero:
  assumes "i \<in> set ens" and "k < length (valence i)"
    and "k < length (fst (absolute_mobility i None))"
    and "fst (absolute_mobility i None) ! k = 0"
  shows "0 \<in> set (omega_of c ens)"
proof -
  let ?row = "\<lambda>ion. map2 (/) (fst (absolute_mobility ion None)) (valence ion)"
  have "k < length (?row i)" using assms(2,3) by simp
  moreover have "?row i ! k = 0" using assms(2-4) by simp
  ultimately have row: "0 \<in> set (?row i)" by (metis nth_mem)
  have "?row i \<in> set (map ?row ens)"
    using assms(1) by (simp only: set_map) (rule imageI)
  with row have "0 \<in> \<Union> (set ` set (map ?row ens))" by (rule UN_I [rotated])
  then have "0 \<in> set (concat (map ?row ens))" by (simp only: set_concat)
  then have "0 / faraday c \<in> (\<lambda>x. x / faraday c) ` set (concat (map ?row ens))"
    by (rule imageI)
  then show ?thesis by (simp add: omega_of_def)
qed

lemma divergence_from_omega:
  assumes "0 \<in> set (omega_of c (ensemble sol self))"
  shows "fst (interaction c sol self) = Inl (RuntimeError divergence_message)
         \<and> fst (actual_mobility c (Some sol) self I T) = Inl (RuntimeError divergence_message)
         \<and> RuntimeError divergence_message \<noteq> AttributeError
         \<and> InsufficientInformation \<notin> set (snd (actual_mobility c (Some sol) self I T))
         \<and> (\<forall>ctx. fst (onsager_fuoss_mobility c ctx self) = Inl AttributeError \<longleftrightarrow> ctx = None)"
proof -
  obtain n where n: "index_of (ensemble sol self) self = Inr n"
    using index_of_mem [OF self_in_ensemble] by blast
  have i: "fst (interaction c sol self) = Inl (RuntimeError divergence_message)"
    using assms n by (auto simp: interaction_def Let_def)
  obtain ws where iw: "interaction c sol self = (Inl (RuntimeError divergence_message), ws)"
    using i by (cases "interaction c sol self") auto
  have ws: "ws = concat (map (\<lambda>ion'. snd (absolute_mobility ion' None)) (ensemble sol self))"
    using iw assms n by (auto simp: interaction_def Let_def)
  have o: "onsager_fuoss_mobility c (Some sol) self = (Inl (RuntimeError divergence_message), ws)"
    by (simp add: onsager_fuoss_mobility_def Let_def iw split: prod.splits)
  have a: "actual_mobility c (Some sol) self I T = (Inl (RuntimeError divergence_message), ws)"
    using actual_mobility_passes [of c "Some sol" self I T] o by simp
  have w: "InsufficientInformation \<notin> set ws"
    unfolding ws using absolute_mobility_warnings by auto
  show ?thesis
    using i a w onsager_fuoss_AttributeError_iff by simp
qed

text \<open>
  Claim C2. When some charge state of the ensemble has zero absolute mobility at a
  nonzero valence, so that its \<open>omega\<close> is 0, the interaction correction raises the
  runtime error with the divergence message; \<open>actual_mobility\<close> of an ion embedded in
  that solution raises the same error, which is not the \<open>AttributeError\<close> that selects
  the Robinson-Stokes fallback, and the fallback's diagnostic is not emitted. The
  Onsager-Fuoss path ends in \<open>AttributeError\<close> exactly when the ion has no enclosing
  solution.
\<close>

theorem divergence_is_fatal:
  assumes "i \<in> set (ensemble sol self)"
    and "k < length (valence i)" and "k < length (fst (absolute_mobility i None))"
    and "fst (absolute_mobility i None) ! k = 0" and "valence i ! k \<noteq> 0"
    and "faraday c \<noteq> 0"
  shows "0 \<in> set (omega_of c (ensemble sol self))
         \<and> fst (interaction c sol self) = Inl (RuntimeError divergence_message)
         \<and> fst (actual_mobility c (Some sol) self I T) = Inl (RuntimeError divergence_message)
         \<and> RuntimeError divergence_message \<noteq> AttributeError
         \<and> InsufficientInformation \<notin> set (snd (actual_mobility c (Some sol) self I T))
         \<and> (\<forall>ctx. fst (onsager_fuoss_mobility c ctx self) = Inl AttributeError \<longleftrightarrow> ctx = None)"
proof -
  have z: "0 \<in> set (omega_of c (ensemble sol self))"
    using assms(1-4) by (rule omega_of_zero)
  from z divergence_from_omega [OF z] show ?thesis by simp
qed

lemma ensemble_Z: "ensemble solution_Z ion_Z = [ion_Z, ion_OH, ion_H]"
  by (simp add: ensemble_def solution_Z_def sample_solution_def ion_Z_def sample_ion_def)

lemma map_times_one: "map ((*) (1::real)) xs = xs"
  by (induction xs) auto

lemma sample_absolute_mobility:
  "absolute_mobility (sample_ion name zs mobs) T = (mobs, [])"
  by (simp add: absolute_mobility_def resolve_context_def sample_ion_def sample_solvent_def
      map_times_one split: option.splits)

lemma robinson_stokes_B:
  "robinson_stokes_mobility sample_constants ion_B (Some 0) (Some 25) = (Inr [3], [])"
proof -
  have kd: "kd_check (kelvin sample_constants 25) (dielectric (ion_solvent ion_B) 25) = None"
    by (rule kd_check_positive)
       (simp_all add: sample_constants_def ion_B_def sample_ion_def sample_solvent_def)
  have am: "absolute_mobility ion_B (Some 25) = ([3], [])"
    by (simp add: ion_B_def sample_absolute_mobility)
  have v: "valence ion_B = [1]" by (simp add: ion_B_def sample_ion_def)
  show ?thesis
    by (simp add: robinson_stokes_mobility_def resolve_context_def kd am v pitts_term_def)
qed

lemma omega_Z: "omega_of sample_constants [ion_Z, ion_OH, ion_H] = [0, 5, 4]"
  by (simp add: omega_of_def ion_Z_def ion_OH_def ion_H_def sample_absolute_mobility)
     (simp add: sample_ion_def sample_constants_def)

theorem divergence_is_fatal_witness:
  "ensemble solution_Z ion_Z = [ion_Z, ion_OH, ion_H]
   \<and> valence ion_Z = [1] \<and> fst (absolute_mobility ion_Z None) = [0]
   \<and> faraday sample_constants \<noteq> 0
   \<and> omega_of sample_constants (ensemble solution_Z ion_Z) = [0, 5, 4]
   \<and> fst (actual_mobility sample_constants (Some solution_Z) ion_Z (Some 0) (Some 25))
       = Inl (RuntimeError divergence_message)"
proof -
  have v: "valence ion_Z = [1]" by (simp add: ion_Z_def sample_ion_def)
  have m: "fst (absolute_mobility ion_Z None) = [0]"
    by (simp add: ion_Z_def sample_absolute_mobility)
  have f: "faraday sample_constants \<noteq> 0" by (simp add: sample_constants_def)
  have "fst (actual_mobility sample_constants (Some solution_Z) ion_Z (Some 0) (Some 25))
        = Inl (RuntimeError divergence_message)"
    using divergence_is_fatal [of ion_Z solution_Z ion_Z 0 sample_constants "Some 0" "Some 25"]
      v m f by (simp add: ensemble_Z)
  with v m f show ?thesis by (simp add: ensemble_Z omega_Z)
qed

text \<open>
  Claim C6. For an ion without an enclosing solution, \<open>actual_mobility\<close> is the outcome
  of \<open>robinson_stokes_mobility\<close> on the same arguments, with the fallback diagnostic
  emitted before those of the estimate; at a physical temperature and a non-negative
  ionic strength the call returns a value.
\<close>

theorem actual_mobility_fallback:
  "actual_mobility c None self I T =
     (fst (robinson_stokes_mobility c self I T),
      InsufficientInformation # snd (robinson_stokes_mobility c self I T))
   \<and> (0 < kelvin c (snd (snd (resolve_context self None I T)))
        \<and> 0 < dielectric (ion_solvent self) (snd (snd (resolve_context self None I T)))
        \<and> 0 \<le> fst (snd (resolve_context self None I T)) \<and> 0 \<le> pitts c
      \<longrightarrow> (\<exists>v. fst (actual_mobility c None self I T) = Inr v))"
proof -
  have eq: "actual_mobility c None self I T =
     (fst (robinson_stokes_mobility c self I T),
      InsufficientInformation # snd (robinson_stokes_mobility c self I T))"
    by (simp add: actual_mobility_def onsager_fuoss_no_context split: prod.splits)
  have ok: "\<exists>v. fst (robinson_stokes_mobility c self I T) = Inr v"
    if k: "0 < kelvin c (snd (snd (resolve_context self None I T)))"
      and d: "0 < dielectric (ion_solvent self) (snd (snd (resolve_context self None I T)))"
      and i: "0 \<le> fst (snd (resolve_context self None I T))" and p: "0 \<le> pitts c"
  proof -
    obtain ph ist t where r: "resolve_context self None I T = (ph, ist, t)"
      by (cases "resolve_context self None I T") auto
    have kd: "kd_check (kelvin c t) (dielectric (ion_solvent self) t) = None"
      using k d r by (simp add: kd_check_positive)
    have "0 \<le> pitts c * sqrt ist" using i p r by simp
    then have "1 + pitts c * sqrt ist \<noteq> 0" by linarith
    then have pt: "pitts_term c ist = Inr (sqrt ist / (1 + pitts c * sqrt ist))"
      using i r by (simp add: pitts_term_def)
    show ?thesis
      by (simp add: robinson_stokes_mobility_def r kd pt Let_def split: prod.splits)
  qed
  show ?thesis using eq ok by auto
qed

theorem actual_mobility_fallback_witness:
  "0 < kelvin sample_constants 25 \<and> 0 < dielectric (ion_solvent ion_B) 25
   \<and> (0::real) \<le> 0 \<and> 0 \<le> pitts sample_constants
   \<and> actual_mobility sample_constants None ion_B (Some 0) (Some 25)
       = (Inr [3], [InsufficientInformation])"
  using actual_mobility_fallback [of sample_constants ion_B "Some 0" "Some 25"]
  by (simp add: robinson_stokes_B)
     (simp add: sample_constants_def ion_B_def sample_ion_def sample_solvent_def)

text \<open>
  Claim C9, as amended. With the Nightingale calibration, \<open>absolute_mobility\<close> returns
  \<open>f(T) * 10.35e-11 / viscosity(T) * valence\<close> in every case, and emits the diagnostic
  exactly when \<open>T \<le> min\<close> or \<open>max \<le> T\<close>: the end points of the range count as outside.
\<close>

theorem nightingale_absolute_mobility:
  assumes "nightingale_function self = Some f"
  shows "absolute_mobility self T =
     (map (\<lambda>v. f (snd (snd (resolve_context self None None T))) * (1035 / 10 ^ 13)
                / viscosity (ion_solvent self) (snd (snd (resolve_context self None None T))) * v)
        (valence self),
      if snd (snd (resolve_context self None None T)) \<le> nightingale_min self
         \<or> nightingale_max self \<le> snd (snd (resolve_context self None None T))
      then [TemperatureOutsideRange] else [])"
  using assms
  by (auto simp: absolute_mobility_def resolve_context_def split: option.splits)

theorem nightingale_absolute_mobility_witness:
  "nightingale_function ion_N = Some (\<lambda>T. T + 1)
   \<and> absolute_mobility ion_N (Some 50) = ([51 * (1035 / 10 ^ 13)], [])"
  using nightingale_absolute_mobility [of ion_N "\<lambda>T. T + 1" "Some 50"]
  by (simp add: ion_N_def sample_ion_def sample_solvent_def resolve_context_def)

text \<open>
  Claim C9 as stated fails at the lower end point of the range: at \<open>T = min = 0\<close> the
  temperature lies in \<open>[min, max]\<close> and the diagnostic is emitted all the same.
\<close>

theorem nightingale_warning_at_range_boundary:
  "\<not> (snd (absolute_mobility ion_N (Some 0)) \<noteq> []
       \<longleftrightarrow> 0 < nightingale_min ion_N \<or> nightingale_max ion_N < 0)"
  by (simp add: absolute_mobility_def ion_N_def sample_ion_def resolve_context_def)

subsection \<open>The Onsager-Fuoss interaction correction\<close>

lemma length_concat_same:
  "\<forall>x \<in> set xs. length (f x) = length (g x) \<Longrightarrow>
     length (concat (map f xs)) = length (concat (map g xs))"
  by (induction xs) auto

lemma length_omega_of:
  assumes "\<forall>i \<in> set ens. wf_ion i"
  shows "length (omega_of c ens) = length (valences_of ens)"
proof -
  have "\<forall>i \<in> set ens.
          length (map2 (/) (fst (absolute_mobility i None)) (valence i)) = length (valence i)"
    using assms by (simp add: length_absolute_mobility)
  then have "length (concat (map (\<lambda>i. map2 (/) (fst (absolute_mobility i None)) (valence i)) ens))
             = length (concat (map valence ens))"
    by (rule length_concat_same)
  then show ?thesis
    by (simp add: omega_of_def valences_of_def)
qed

lemma length_potential_of:
  assumes "\<forall>i \<in> set ens. wf_ion i"
  shows "length (potential_of sol ens) = length (valences_of ens)"
proof -
  have "\<forall>i \<in> set ens.
          length (map (\<lambda>f. concentration sol i * f) (ionization_fraction i (pH sol)))
          = length (valence i)"
    using assms by (simp add: wf_ion_def)
  then have "length (concentrations_of sol ens) = length (valences_of ens)"
    unfolding concentrations_of_def valences_of_def
    by (rule length_concat_same)
  then show ?thesis by (simp add: potential_of_def)
qed

lemma length_h_matrix: "length (h_matrix potential omega) = length omega"
  by (simp add: h_matrix_def omega_sums_def)

lemma length_h_row:
  "length potential = length omega \<Longrightarrow> i < length omega \<Longrightarrow>
     length (h_matrix potential omega ! i) = length omega"
  by (simp add: h_matrix_def omega_sums_def)

lemma h_matrix_nth:
  "length potential = length omega \<Longrightarrow> i < length omega \<Longrightarrow> j < length omega \<Longrightarrow>
     h_matrix potential omega ! i ! j = potential ! j * omega ! j / (omega ! i + omega ! j)"
  by (simp add: h_matrix_def omega_sums_def add.commute)

lemma d_matrix_nth:
  "i < length h \<Longrightarrow> j < length h \<Longrightarrow>
     d_matrix h ! i ! j = (if i = j then sum_list (h ! i) else 0)"
  by (simp add: d_matrix_def np_diag_def)

lemma B_matrix_nth:
  "i < length h \<Longrightarrow> j < length h \<Longrightarrow> length (h ! i) = length h \<Longrightarrow>
     B_matrix h ! i ! j = 2 * (h ! i ! j + d_matrix h ! i ! j) - (if i = j then 1 else 0)"
  by (simp add: B_matrix_def mat_sub_def mat_add_def d_matrix_def np_diag_def np_identity_def)

lemma sum_list_map2_nth:
  "length xs = length ys \<Longrightarrow>
     sum_list (map2 f xs ys) = (\<Sum>j = 0..<length ys. f (xs ! j) (ys ! j))"
  by (simp add: sum_list_sum_nth)

lemma np_dot_nth:
  "i < length m \<Longrightarrow> length (m ! i) = length v \<Longrightarrow>
     np_dot m v ! i = (\<Sum>j = 0..<length v. m ! i ! j * v ! j)"
  by (simp add: np_dot_def sum_list_map2_nth)

lemma length_relax: "length (relax B k r) = k"
  by (induction k arbitrary: r) (auto simp: Let_def)

lemma relax_nth:
  "k < n \<Longrightarrow> (r # relax B n r) ! Suc k = np_dot B ((r # relax B n r) ! k)"
proof (induction n arbitrary: r k)
  case 0
  then show ?case by simp
next
  case (Suc n)
  show ?case
  proof (cases k)
    case 0
    then show ?thesis by (simp add: Let_def)
  next
    case (Suc k')
    with Suc.prems have "k' < n" by simp
    from Suc.IH [OF this, of "np_dot B r"] Suc show ?thesis
      by (simp add: Let_def)
  qed
qed

lemma r_columns_props:
  "length (r_columns B r0) = 6 \<and> r_columns B r0 ! 0 = r0
   \<and> (\<forall>k < 5. r_columns B r0 ! Suc k = np_dot B (r_columns B r0 ! k))"
  using relax_nth [of _ 5 r0 B]
  by (simp add: r_columns_def length_relax)

lemma factor_of_nth:
  "length coeffs = length cols \<Longrightarrow> k < n \<Longrightarrow>
     factor_of coeffs cols n ! k = (\<Sum>i = 0..<length cols. coeffs ! i * cols ! i ! k)"
  by (simp add: factor_of_def sum_list_map2_nth)


lemma length_B_matrix: "length (B_matrix h) = length h"
  by (simp add: B_matrix_def mat_sub_def mat_add_def d_matrix_def np_diag_def np_identity_def)

lemma length_B_row:
  "i < length h \<Longrightarrow> length (h ! i) = length h \<Longrightarrow> length (B_matrix h ! i) = length h"
  by (simp add: B_matrix_def mat_sub_def mat_add_def d_matrix_def np_diag_def np_identity_def)

lemma length_np_dot: "length (np_dot m v) = length m"
  by (simp add: np_dot_def)

lemma length_relax_columns:
  "col \<in> set (relax B k r) \<Longrightarrow> length col = length B"
  by (induction k arbitrary: r) (auto simp: Let_def length_np_dot)

lemma length_r_column:
  assumes "length r0 = length B" and "k < 6"
  shows "length (r_columns B r0 ! k) = length B"
proof -
  have "r_columns B r0 ! k \<in> set (r_columns B r0)"
    using assms(2) by (simp add: r_columns_def length_relax del: set_simps)
  then show ?thesis
    using assms(1) length_relax_columns [of _ B 5 r0] by (auto simp: r_columns_def)
qed

lemma length_r0_of:
  "length valences = length omega \<Longrightarrow> length (r0_of valences potential omega) = length omega"
  by (simp add: r0_of_def)

text \<open>
  Claim C1, as amended. Whenever the interaction correction returns, on an ensemble of
  well-shaped ions: \<open>h[i,j] = potential[j] * omega[j] / (omega[i] + omega[j])\<close> (the
  numerator is indexed by the column), \<open>d\<close> is the diagonal matrix of the row sums of
  \<open>h\<close>, \<open>B = 2 * (h + d) - Identity\<close>, there are six columns with
  \<open>r_i = B @ r_{i-1}\<close> for \<open>i = 1..5\<close> and no convergence test, and the result is the
  dot product of the coefficient vector with the six columns, cut to the querying ion's
  range of charge states.
\<close>

theorem interaction_structure:
  assumes wf: "\<forall>i \<in> set (ensemble sol ion). wf_ion i"
    and ok: "interaction c sol ion = (Inr res, ws)"
  shows "let ens = ensemble sol ion; omega = omega_of c ens; potential = potential_of sol ens;
             n = length omega; h = h_matrix potential omega; d = d_matrix h; B = B_matrix h;
             cols = r_columns B (r0_of (valences_of ens) potential omega)
         in (\<forall>i < n. \<forall>j < n. h ! i ! j = potential ! j * omega ! j / (omega ! i + omega ! j))
          \<and> (\<forall>i < n. \<forall>j < n. d ! i ! j = (if i = j then (\<Sum>k = 0..<n. h ! i ! k) else 0))
          \<and> (\<forall>i < n. \<forall>j < n. B ! i ! j = 2 * (h ! i ! j + d ! i ! j) - (if i = j then 1 else 0))
          \<and> length cols = 6
          \<and> (\<forall>k < 5. \<forall>i < n. cols ! Suc k ! i = (\<Sum>j = 0..<n. B ! i ! j * cols ! k ! j))
          \<and> (\<exists>idx. index_of ens ion = Inr idx
                \<and> res = take (length (valence ion))
                          (drop (start_index ens idx)
                             (map (\<lambda>k. \<Sum>i = 0..<6. onsager_fuoss c ! i * cols ! i ! k)
                                [0..<n])))"
proof -
  define ens where "ens = ensemble sol ion"
  define omega where "omega = omega_of c ens"
  define potential where "potential = potential_of sol ens"
  define n where "n = length omega"
  define h where "h = h_matrix potential omega"
  define d where "d = d_matrix h"
  define B where "B = B_matrix h"
  define r0 where "r0 = r0_of (valences_of ens) potential omega"
  define cols where "cols = r_columns B r0"
  have lv: "length (valences_of ens) = n"
    using length_omega_of [of ens c] wf by (simp add: ens_def n_def omega_def)
  have lp: "length potential = length omega"
    using length_potential_of [of ens sol] wf lv by (simp add: ens_def potential_def n_def)
  have lh: "length h = n" by (simp add: h_def n_def length_h_matrix)
  have lhr: "length (h ! i) = n" if "i < n" for i
    using that lp by (simp add: h_def n_def length_h_row)
  have lB: "length B = n" by (simp add: B_def length_B_matrix lh)
  have lBr: "length (B ! i) = n" if "i < n" for i
    using that length_B_row [of i h] lh lhr by (simp add: B_def)
  have lr0: "length r0 = length B"
    using lv lB by (simp add: r0_def n_def length_r0_of)
  have lcol: "length (cols ! k) = n" if "k < 6" for k
    using length_r_column [OF lr0 that] lB by (simp add: cols_def)
  have H: "\<forall>i < n. \<forall>j < n. h ! i ! j = potential ! j * omega ! j / (omega ! i + omega ! j)"
    using lp by (simp add: h_def n_def h_matrix_nth)
  have D: "\<forall>i < n. \<forall>j < n. d ! i ! j = (if i = j then (\<Sum>k = 0..<n. h ! i ! k) else 0)"
  proof (intro allI impI)
    fix i j assume "i < n" "j < n"
    then have "d ! i ! j = (if i = j then sum_list (h ! i) else 0)"
      using lh by (simp add: d_def d_matrix_nth)
    moreover have "sum_list (h ! i) = (\<Sum>k = 0..<n. h ! i ! k)"
      using lhr [OF \<open>i < n\<close>] by (simp add: sum_list_sum_nth)
    ultimately show "d ! i ! j = (if i = j then (\<Sum>k = 0..<n. h ! i ! k) else 0)"
      by (simp only:)
  qed
  have Bm: "\<forall>i < n. \<forall>j < n. B ! i ! j = 2 * (h ! i ! j + d ! i ! j) - (if i = j then 1 else 0)"
    using lh lhr by (simp add: B_def d_def B_matrix_nth)
  have C6: "length cols = 6"
    using r_columns_props [of B r0] by (simp add: cols_def)
  have R: "\<forall>k < 5. \<forall>i < n. cols ! Suc k ! i = (\<Sum>j = 0..<n. B ! i ! j * cols ! k ! j)"
  proof (intro allI impI)
    fix k i assume k: "k < (5::nat)" and i: "i < n"
    have "cols ! Suc k = np_dot B (cols ! k)"
      using r_columns_props [of B r0] k by (simp add: cols_def)
    moreover have "length (B ! i) = length (cols ! k)"
      using lBr [OF i] lcol [of k] k by simp
    ultimately show "cols ! Suc k ! i = (\<Sum>j = 0..<n. B ! i ! j * cols ! k ! j)"
      using np_dot_nth [of i B "cols ! k"] i lB lcol [of k] k by simp
  qed
  obtain idx where idx: "index_of ens ion = Inr idx"
    using index_of_mem [OF self_in_ensemble, of sol ion] by (auto simp: ens_def)
  have nz: "\<not> (\<exists>x \<in> set omega. x = 0)" and l6: "length (onsager_fuoss c) = 6"
    using ok idx by (auto simp: interaction_def Let_def ens_def omega_def split: if_splits)
  have res: "res = take (length (valence ion))
                     (drop (start_index ens idx) (factor_of (onsager_fuoss c) cols n))"
    using ok idx nz l6
    by (simp add: interaction_def Let_def ens_def [symmetric] omega_def [symmetric]
        potential_def [symmetric] h_def [symmetric] B_def [symmetric] r0_def [symmetric]
        cols_def [symmetric] n_def [symmetric])
  have F: "factor_of (onsager_fuoss c) cols n
           = map (\<lambda>k. \<Sum>i = 0..<6. onsager_fuoss c ! i * cols ! i ! k) [0..<n]"
    using l6 C6 by (intro nth_equalityI) (simp_all add: factor_of_def sum_list_map2_nth)
  show ?thesis
    unfolding Let_def
    using H D Bm C6 R idx res F
    by (simp only: ens_def [symmetric] omega_def [symmetric] potential_def [symmetric]
        h_def [symmetric] d_def [symmetric] B_def [symmetric] r0_def [symmetric]
        cols_def [symmetric] n_def [symmetric]) blast
qed

text \<open>The correction evaluated on the solution of A and B, queried for A.\<close>

lemma ensemble_AB: "ensemble solution_AB ion_A = [ion_A, ion_B, ion_OH, ion_H]"
  by (simp add: ensemble_def solution_AB_def sample_solution_def ion_A_def ion_B_def
      sample_ion_def)

lemma omega_AB: "omega_of sample_constants [ion_A, ion_B, ion_OH, ion_H] = [2, 3, 5, 4]"
  by (simp add: omega_of_def ion_A_def ion_B_def ion_OH_def ion_H_def sample_absolute_mobility)
     (simp add: sample_ion_def sample_constants_def)

lemma valences_AB: "valences_of [ion_A, ion_B, ion_OH, ion_H] = [- 1, 1, - 1, 1]"
  by (simp add: valences_of_def ion_A_def ion_B_def ion_OH_def ion_H_def sample_ion_def)

lemma potential_AB: "potential_of solution_AB [ion_A, ion_B, ion_OH, ion_H] = [1, 2, 0, 0]"
  by (simp add: potential_of_def concentrations_of_def valences_AB)
     (simp add: solution_AB_def sample_solution_def ion_A_def ion_B_def ion_OH_def ion_H_def
       sample_ion_def)

lemma upt_4: "[0..<4] = [0, 1, 2, 3]"
  by (simp add: upt_rec)

lemma sample_B:
  "B_matrix (h_matrix [1, 2, 0, 0] [2, 3, 5, 4]) =
     [[17 / 5, 12 / 5, 0, 0], [4 / 5, 19 / 5, 0, 0], [4 / 7, 3 / 2, 15 / 14, 0],
      [2 / 3, 12 / 7, 0, 29 / 21]]"
  by (simp add: B_matrix_def h_matrix_def omega_sums_def d_matrix_def np_diag_def
      np_identity_def mat_add_def mat_sub_def upt_4)

lemma sample_r0:
  "r0_of [- 1, 1, - 1, 1] [1, 2, 0, 0] [2, 3, 5, 4] = [- (10 / 7), 5 / 7, - (41 / 35), 11 / 14]"
  by (simp add: r0_of_def)

lemma sample_cols:
  "r_columns [[17 / 5, 12 / 5, 0, 0], [4 / 5, 19 / 5, 0, 0], [4 / 7, 3 / 2, 15 / 14, 0],
      [2 / 3, 12 / 7, 0, 29 / 21]] [- (10 / 7), 5 / 7, - (41 / 35), 11 / 14] =
   [[- (10 / 7), 5 / 7, - (41 / 35), 11 / 14],
    [- (22 / 7), 11 / 7, - 1, 19 / 14],
    [- (242 / 35), 121 / 35, - (25 / 49), 727 / 294],
    [- (2662 / 175), 1331 / 175, 236 / 343, 146071 / 30870],
    [- (29282 / 875), 14641 / 875, 82919 / 24010, 30571831 / 3241350],
    [- (322102 / 4375), 161051 / 4375, 16262651 / 1680700, 6602360311 / 340341750]]"
  by (simp add: r_columns_def np_dot_def Let_def eval_nat_numeral)

lemma sample_factor:
  "factor_of [1, 1, 1, 1, 1, 1]
     (r_columns (B_matrix (h_matrix [1, 2, 0, 0] [2, 3, 5, 4]))
        (r0_of [- 1, 1, - 1, 1] [1, 2, 0, 0] [2, 3, 5, 4])) 4
   = [- (83616 / 625), 41808 / 625, 18716361 / 1680700, 6496866233 / 170170875]"
  unfolding sample_B sample_r0 sample_cols
  by (simp add: factor_of_def upt_4)

lemma Suc4: "Suc (Suc (Suc (Suc 0))) = 4"
  by simp

lemma index_AB: "index_of [ion_A, ion_B, ion_OH, ion_H] ion_A = Inr 0"
  by simp

lemma interaction_AB:
  "interaction sample_constants solution_AB ion_A = (Inr [- (83616 / 625)], [])"
proof -
  have of: "onsager_fuoss sample_constants = [1, 1, 1, 1, 1, 1]"
    by (simp add: sample_constants_def)
  have v: "valence ion_A = [- 1]" by (simp add: ion_A_def sample_ion_def)
  have ws: "concat (map (\<lambda>ion'. snd (absolute_mobility ion' None)) [ion_A, ion_B, ion_OH, ion_H]) = []"
    by (simp add: ion_A_def ion_B_def ion_OH_def ion_H_def sample_absolute_mobility)
  show ?thesis
    unfolding interaction_def ensemble_AB index_AB
    by (simp add: Let_def omega_AB valences_AB potential_AB of v ws start_index_def
        Suc4 sample_factor del: concat.simps list.map)
qed

lemma wf_sample_ion: "length mobs = length zs \<Longrightarrow> wf_ion (sample_ion name zs mobs)"
  by (simp add: wf_ion_def sample_ion_def)

lemma wf_AB: "\<forall>i \<in> set (ensemble solution_AB ion_A). wf_ion i"
  unfolding ensemble_AB
  by (simp add: ion_A_def ion_B_def ion_OH_def ion_H_def wf_sample_ion)

theorem interaction_structure_witness:
  "ensemble solution_AB ion_A = [ion_A, ion_B, ion_OH, ion_H]
   \<and> wf_ion ion_A \<and> wf_ion ion_B \<and> wf_ion ion_OH \<and> wf_ion ion_H
   \<and> interaction sample_constants solution_AB ion_A = (Inr [- (83616 / 625)], [])
   \<and> h_matrix [1, 2, 0, 0] [2, 3, 5, 4] ! 0 ! 1 = 2 * 3 / (2 + 3)"
proof -
  have "\<forall>i < length [2, 3, 5, 4 :: real]. \<forall>j < length [2, 3, 5, 4 :: real].
          h_matrix [1, 2, 0, 0] [2, 3, 5, 4] ! i ! j
          = [1, 2, 0, 0] ! j * [2, 3, 5, 4] ! j / ([2, 3, 5, 4] ! i + [2, 3, 5, 4] ! j)"
    using interaction_structure [OF wf_AB interaction_AB]
    unfolding Let_def ensemble_AB omega_AB potential_AB
    by (rule conjunct1)
  then have "h_matrix [1, 2, 0, 0] [2, 3, 5, 4] ! 0 ! 1
             = [1, 2, 0, 0] ! 1 * [2, 3, 5, 4] ! 1 / ([2, 3, 5, 4] ! 0 + [2, 3, 5, 4] ! (1::nat))"
    by simp
  then show ?thesis
    using wf_AB interaction_AB ensemble_AB by simp
qed

text \<open>
  Claim C1 as stated fails on the solution of A and B, queried for A, where the correction
  returns: the entry \<open>h[0,1]\<close> is not \<open>potential[0] * omega[0] / (omega[0] + omega[1])\<close>
  (it is \<open>6/5\<close>, the claimed value is \<open>2/5\<close>).
\<close>

theorem interaction_matrix_row_indexed_counterexample:
  "fst (interaction sample_constants solution_AB ion_A) = Inr [- (83616 / 625)]
   \<and> h_matrix (potential_of solution_AB (ensemble solution_AB ion_A))
         (omega_of sample_constants (ensemble solution_AB ion_A)) ! 0 ! 1
       \<noteq> potential_of solution_AB (ensemble solution_AB ion_A) ! 0
           * omega_of sample_constants (ensemble solution_AB ion_A) ! 0
           / (omega_of sample_constants (ensemble solution_AB ion_A) ! 0
              + omega_of sample_constants (ensemble solution_AB ion_A) ! 1)"
  unfolding ensemble_AB omega_AB potential_AB interaction_AB
  by (simp add: h_matrix_def omega_sums_def)

text \<open>
  Claim C5. The ensemble is the solution's ions of strictly positive concentration in
  their order, then hydroxide and hydronium, then the querying ion if it is not among
  these. An ion whose concentration is not positive, other than the querying ion and the
  two solvent ions, is not in the ensemble. The querying ion's range starts at the sum
  of the lengths of the valence vectors of the ions before its first occurrence.
\<close>

theorem ensemble_construction:
  "ensemble sol ion =
      filter (\<lambda>i. 0 < concentration sol i) (ions sol) @ [hydroxide sol, hydronium sol]
      @ (if ion \<in> set (filter (\<lambda>i. 0 < concentration sol i) (ions sol))
               \<union> {hydroxide sol, hydronium sol} then [] else [ion])
   \<and> (concentration sol A \<le> 0 \<and> A \<noteq> ion \<and> A \<noteq> hydroxide sol \<and> A \<noteq> hydronium sol
        \<longrightarrow> A \<notin> set (ensemble sol ion))
   \<and> (\<exists>idx. index_of (ensemble sol ion) ion = Inr idx
         \<and> idx < length (ensemble sol ion) \<and> ensemble sol ion ! idx = ion
         \<and> ion \<notin> set (take idx (ensemble sol ion))
         \<and> start_index (ensemble sol ion) idx
             = sum_list (map (\<lambda>i. length (valence i)) (take idx (ensemble sol ion))))"
proof -
  have a: "ensemble sol ion =
      filter (\<lambda>i. 0 < concentration sol i) (ions sol) @ [hydroxide sol, hydronium sol]
      @ (if ion \<in> set (filter (\<lambda>i. 0 < concentration sol i) (ions sol))
               \<union> {hydroxide sol, hydronium sol} then [] else [ion])"
    by (auto simp: ensemble_def Let_def)
  have b: "A \<notin> set (ensemble sol ion)"
    if "concentration sol A \<le> 0 \<and> A \<noteq> ion \<and> A \<noteq> hydroxide sol \<and> A \<noteq> hydronium sol"
    using that by (auto simp: ensemble_def Let_def)
  have s: "start_index ens idx = sum_list (map (\<lambda>i. length (valence i)) (take idx ens))"
    for ens idx
    by (simp add: start_index_def length_concat comp_def)
  from index_of_mem [OF self_in_ensemble, of sol ion] s
  have c: "\<exists>idx. index_of (ensemble sol ion) ion = Inr idx
         \<and> idx < length (ensemble sol ion) \<and> ensemble sol ion ! idx = ion
         \<and> ion \<notin> set (take idx (ensemble sol ion))
         \<and> start_index (ensemble sol ion) idx
             = sum_list (map (\<lambda>i. length (valence i)) (take idx (ensemble sol ion)))"
    by blast
  from a b c show ?thesis by blast
qed

lemma ensemble_A0B: "ensemble solution_A0B ion_B = [ion_B, ion_OH, ion_H]"
  by (simp add: ensemble_def solution_A0B_def sample_solution_def ion_A_def ion_B_def
      sample_ion_def)

theorem ensemble_construction_witness:
  "concentration solution_A0B ion_A \<le> 0 \<and> ion_A \<noteq> ion_B
   \<and> ion_A \<noteq> hydroxide solution_A0B \<and> ion_A \<noteq> hydronium solution_A0B
   \<and> ensemble solution_A0B ion_B = [ion_B, ion_OH, ion_H]
   \<and> ion_A \<notin> set (ensemble solution_A0B ion_B)"
proof -
  have c: "concentration solution_A0B ion_A \<le> 0"
    by (simp add: solution_A0B_def sample_solution_def ion_A_def ion_B_def sample_ion_def)
  have d: "ion_A \<noteq> ion_B" "ion_A \<noteq> hydroxide solution_A0B" "ion_A \<noteq> hydronium solution_A0B"
    by (simp_all add: solution_A0B_def sample_solution_def ion_A_def ion_B_def ion_OH_def
        ion_H_def sample_ion_def)
  from ensemble_construction [of solution_A0B ion_B ion_A] c d
  have "ion_A \<notin> set (ensemble solution_A0B ion_B)" by blast
  with c d ensemble_A0B show ?thesis by simp
qed

lemma pitts_term_half:
  "pitts_term sample_constants (1 / 2) = Inr (sqrt (1 / 2) / (1 + 3 / 2 * sqrt (1 / 2)))"
proof -
  have "0 \<le> 3 / 2 * sqrt (1 / 2 :: real)" by simp
  then have "1 + 3 / 2 * sqrt (1 / 2 :: real) \<noteq> 0" by linarith
  then show ?thesis by (simp add: pitts_term_def sample_constants_def)
qed

lemma onsager_fuoss_AB:
  "onsager_fuoss_mobility sample_constants (Some solution_AB) ion_A =
     (Inr [- 2 - (1971000 * sqrt 2 / ((25 + 27315 / 100) * 80) powr (3 / 2)
                    * (- 2) * (- (83616 / 625)) * \<bar>- 1\<bar>
                  + 2898 / 100 * sqrt 2 * 1 * 1 * 1 / sqrt ((25 + 27315 / 100) * 80) / 1
                    * sgn (- 1))
                 * (sqrt (1 / 2) / (1 + 3 / 2 * sqrt (1 / 2)))], [])"
proof -
  have r: "resolve_context ion_A None None None = (7, 1 / 2, 25)"
    by (simp add: resolve_context_def ion_A_def sample_ion_def sample_context_def)
  have k: "kelvin sample_constants 25 = 25 + 27315 / 100"
    by (simp add: sample_constants_def)
  have d: "dielectric (ion_solvent ion_A) 25 = 80" and vi: "viscosity (ion_solvent ion_A) 25 = 1"
    by (simp_all add: ion_A_def sample_ion_def sample_solvent_def)
  have kd: "kd_check (25 + 27315 / 100) 80 = None"
    by (rule kd_check_positive) simp_all
  have am: "absolute_mobility ion_A None = ([- 2], [])"
    by (simp add: ion_A_def sample_absolute_mobility)
  have v: "valence ion_A = [- 1]" by (simp add: ion_A_def sample_ion_def)
  have c: "faraday sample_constants = 1" "elementary_charge sample_constants = 1"
    "lpm3 sample_constants = 1"
    by (simp_all add: sample_constants_def)
  show ?thesis
    unfolding onsager_fuoss_mobility_def r
    by (simp only: Let_def prod.case option.case interaction_AB sum.case k d vi kd am v c
        pitts_term_half zip.simps list.case list.map append_Nil)
qed

theorem actual_mobility_ignores_arguments_witness:
  "onsager_fuoss_mobility sample_constants (Some solution_AB) ion_A =
     (Inr [- 2 - (1971000 * sqrt 2 / ((25 + 27315 / 100) * 80) powr (3 / 2)
                    * (- 2) * (- (83616 / 625)) * \<bar>- 1\<bar>
                  + 2898 / 100 * sqrt 2 * 1 * 1 * 1 / sqrt ((25 + 27315 / 100) * 80) / 1
                    * sgn (- 1))
                 * (sqrt (1 / 2) / (1 + 3 / 2 * sqrt (1 / 2)))], [])
   \<and> actual_mobility sample_constants (Some solution_AB) ion_A (Some 3) (Some 40)
       = actual_mobility sample_constants (Some solution_AB) ion_A None None"
  using actual_mobility_ignores_arguments [OF onsager_fuoss_AB, of "Some 3" "Some 40" None None]
    onsager_fuoss_AB by blast

subsection \<open>The equilibrium pH solver\<close>

lemma length_convolve: "length (convolve a v) = length a + length v - 1"
  by (simp add: convolve_def)

lemma length_fold_convolve:
  "map length M = map length M' \<Longrightarrow> length acc = length acc' \<Longrightarrow>
     length (fold (\<lambda>row a. convolve a row) M acc)
     = length (fold (\<lambda>row a. convolve a row) M' acc')"
proof (induction M arbitrary: M' acc acc')
  case Nil
  then show ?case by simp
next
  case (Cons row M)
  then obtain row' M'' where M': "M' = row' # M''" by (cases M') auto
  with Cons.prems have "map length M = map length M''" "length row = length row'"
    by simp_all
  with Cons.prems(2) M' show ?case
    using Cons.IH [of M'' "convolve acc row" "convolve acc' row'"]
    by (simp add: length_convolve)
qed

lemma length_convolve_rows:
  "map length M = map length M' \<Longrightarrow> length (convolve_rows M) = length (convolve_rows M')"
  unfolding convolve_rows_def by (rule length_fold_convolve) simp_all

lemma length_assign_prefix:
  "assign_prefix k vals row = Inr r \<Longrightarrow> length r = length row"
  by (auto simp: assign_prefix_def Let_def split: if_splits)

lemma LMat_rows_shape:
  "LMat_rows m I is = Inr LMat \<Longrightarrow>
     length LMat = length is \<and> (\<forall>row \<in> set LMat. length row = m)"
proof (induction "is" arbitrary: LMat)
  case Nil
  then show ?case by simp
next
  case (Cons i rest)
  then obtain row rows where
    row: "assign_prefix (length (z i) + 1) (L i I) (replicate m 0) = Inr row"
    and rows: "LMat_rows m I rest = Inr rows" and LMat: "LMat = row # rows"
    by (auto split: sum.splits)
  from length_assign_prefix [OF row] Cons.IH [OF rows] LMat show ?case by simp
qed

lemma length_P_row:
  assumes "P_row obj m LMat i = Inr Pi" and "\<forall>row \<in> set LMat. length row = m"
    and "length LMat = length (ions obj)"
  shows "length Pi = length (convolve_rows LMat) + 1"
proof -
  from assms(1) obtain tmp where i: "i < length (ions obj)"
    and tmp: "assign_prefix (length (z0 (ions obj ! i)))
                (map real_of_int (z0 (ions obj ! i))) (replicate m 0) = Inr tmp"
    and Pi: "Pi = convolve [0, 1] (convolve_rows (LMat[i := map2 (*) (LMat ! i) tmp]))"
    by (auto simp: P_row_def Let_def split: if_splits sum.splits)
  have lt: "length tmp = m" using length_assign_prefix [OF tmp] by simp
  have li: "length (LMat ! i) = m" using assms(2,3) i by simp
  have "map length (LMat[i := map2 (*) (LMat ! i) tmp]) = map length LMat"
    using lt li i assms(3) by (simp add: map_update list_update_same_conv)
  from length_convolve_rows [OF this] Pi show ?thesis
    by (simp add: length_convolve)
qed

lemma P_rows_shape:
  assumes "P_rows obj m LMat idxs = Inr PMat" and "\<forall>row \<in> set LMat. length row = m"
    and "length LMat = length (ions obj)"
  shows "\<forall>row \<in> set PMat. length row = length (convolve_rows LMat) + 1"
  using assms(1)
proof (induction idxs arbitrary: PMat)
  case Nil
  then show ?case by simp
next
  case (Cons i rest)
  then obtain Pi ps where Pi: "P_row obj m LMat i = Inr Pi"
    and ps: "P_rows obj m LMat rest = Inr ps" and PMat: "PMat = Pi # ps"
    by (auto split: sum.splits)
  from length_P_row [OF Pi assms(2,3)] Cons.IH [OF ps] PMat show ?case by simp
qed

lemma PMat_width_le:
  "\<forall>row \<in> set PMat. length row = w \<Longrightarrow> PMat_width PMat \<le> w"
  by (cases PMat) (simp_all add: PMat_width_def)

lemma length_P_of: "length (P_of PMat concs) = PMat_width PMat"
  by (simp add: P_of_def)

lemma length_Q_of: "length (Q_of obj I LMat) = length (convolve_rows LMat) + 2"
  by (simp add: Q_of_def length_convolve)

text \<open>
  Claim C4. Whenever \<open>calc_pH\<close> reaches the padding step, for any number of ions and
  any charge-state counts, the padded \<open>P\<close> and \<open>Q\<close> have the same length: \<open>P\<close> is the
  shorter of the two before the step, and it is \<open>P\<close> followed by zeros afterwards,
  while \<open>Q\<close> is unchanged.
\<close>

theorem padded_polynomials_equal_length:
  assumes "padded_PQ obj I = Inr (P, Q)"
  shows "length P = length Q
         \<and> (\<exists>MaxCol LMat PMat.
               MaxCol_of (ions obj) = Inr MaxCol
             \<and> LMat_rows MaxCol I (ions obj) = Inr LMat
             \<and> P_rows obj MaxCol LMat [0..<length (concentrations obj)] = Inr PMat
             \<and> Q = Q_of obj I LMat
             \<and> length (P_of PMat (concentrations obj)) < length Q
             \<and> P = P_of PMat (concentrations obj)
                   @ replicate (length Q - length (P_of PMat (concentrations obj))) 0)"
proof -
  from assms obtain m LMat PMat where m: "MaxCol_of (ions obj) = Inr m"
    and LMat: "LMat_rows m I (ions obj) = Inr LMat"
    and PMat: "P_rows obj m LMat [0..<length (concentrations obj)] = Inr PMat"
    and PQ: "(P, Q) = pad (P_of PMat (concentrations obj)) (Q_of obj I LMat)
                        (SizeDiff_of (Q_of obj I LMat) PMat)"
    by (auto simp: padded_PQ_def Let_def split: sum.splits)
  from LMat_rows_shape [OF LMat]
  have sh: "\<forall>row \<in> set LMat. length row = m" "length LMat = length (ions obj)"
    by simp_all
  have w: "PMat_width PMat \<le> length (convolve_rows LMat) + 1"
    using P_rows_shape [OF PMat sh] by (rule PMat_width_le)
  have lq: "length (Q_of obj I LMat) = length (convolve_rows LMat) + 2"
    by (rule length_Q_of)
  have sd: "SizeDiff_of (Q_of obj I LMat) PMat
            = int (length (Q_of obj I LMat) - PMat_width PMat)"
    and pos: "PMat_width PMat < length (Q_of obj I LMat)"
    using w lq by (simp_all add: SizeDiff_of_def)
  have P: "P = P_of PMat (concentrations obj)
                 @ replicate (length (Q_of obj I LMat) - PMat_width PMat) 0"
    and Q: "Q = Q_of obj I LMat"
    using PQ pos by (simp_all add: pad_def sd)
  have "length P = length Q"
    using P Q pos by (simp add: length_P_of)
  with m LMat PMat P Q pos show ?thesis
    by (auto simp: length_P_of)
qed

text \<open>
  Claim C7. On a solution without ions \<open>calc_pH\<close> does not return pH 7: the maximum
  over the empty list of ions raises, whatever the root finder and the ionic strength.
\<close>

theorem pure_water_raises: "calc_pH roots pure_water I = Inl ValueError"
  by (simp add: calc_pH_def combined_polynomial_def padded_PQ_def MaxCol_of_def
      pure_water_def sample_solution_def)

text \<open>The padding evaluated on a solution of A and D.\<close>

lemma upt_unfold: "[0..<1] = [0]" "[0..<2] = [0, 1]" "[0..<3] = [0, 1, 2]" "[0..<4] = [0, 1, 2, 3]"
  "[0..<5] = [0, 1, 2, 3, 4]" "[0..<6] = [0, 1, 2, 3, 4, 5]" "[0..<7] = [0, 1, 2, 3, 4, 5, 6]"
  by (simp_all add: upt_rec)

lemma fields_A: "z ion_A = [- 1]" "z0 ion_A = [- 1, 0]" "L ion_A = (\<lambda>I. [1, 1])"
  by (simp_all add: ion_A_def sample_ion_def)

lemma ions_AD: "ions solution_AD = [ion_A, ion_D]" "concentrations solution_AD = [1, 2]"
  "Kw_eff solution_AD = (\<lambda>I. 4)"
  by (simp_all add: solution_AD_def sample_solution_def)

lemma fields_D: "z ion_D = [- 2, - 1]" "z0 ion_D = [- 2, - 1, 0]" "L ion_D = (\<lambda>I. [1, 1, 1])"
  by (simp_all add: ion_D_def sample_ion_def numeral_3_eq_3)

lemma MaxCol_AD: "MaxCol_of [ion_A, ion_D] = Inr 3"
  by (simp add: MaxCol_of_def fields_A fields_D)

lemma LMat_AD: "LMat_rows 3 I [ion_A, ion_D] = Inr [[1, 1, 0], [1, 1, 1]]"
  by (simp add: fields_A fields_D assign_prefix_def numeral_3_eq_3)

lemma Q_AD: "Q_of solution_AD I [[1, 1, 0], [1, 1, 1]] = [- 4, - 8, - 7, - 2, 2, 1, 0]"
  by (simp add: Q_of_def convolve_rows_def ions_AD convolve_def upt_unfold)

lemma P_row_AD_0: "P_row solution_AD 3 [[1, 1, 0], [1, 1, 1]] 0 = Inr [0, - 1, - 1, - 1, 0, 0]"
  by (simp add: P_row_def ions_AD fields_A assign_prefix_def convolve_rows_def numeral_3_eq_3)
     (simp add: convolve_def upt_unfold)

lemma P_row_AD_1: "P_row solution_AD 3 [[1, 1, 0], [1, 1, 1]] (Suc 0) = Inr [0, - 2, - 3, - 1, 0, 0]"
  by (simp add: P_row_def ions_AD fields_D assign_prefix_def convolve_rows_def numeral_3_eq_3)
     (simp add: convolve_def upt_unfold)

lemma padded_AD:
  "padded_PQ solution_AD I =
     Inr ([0, - 5, - 7, - 3, 0, 0, 0], [- 4, - 8, - 7, - 2, 2, 1, 0])"
  unfolding padded_PQ_def ions_AD MaxCol_AD sum.case LMat_AD Let_def Q_AD
  by (simp add: P_row_AD_0 P_row_AD_1 upt_unfold P_of_def PMat_width_def SizeDiff_of_def
      pad_def)

theorem padded_polynomials_equal_length_witness:
  "padded_PQ solution_AD 0 = Inr ([0, - 5, - 7, - 3, 0, 0, 0], [- 4, - 8, - 7, - 2, 2, 1, 0])
   \<and> length [0, - 5, - 7, - 3, 0, 0, 0 :: real] = length [- 4, - 8, - 7, - 2, 2, 1, 0 :: real]"
  using padded_polynomials_equal_length [OF padded_AD [of 0]] padded_AD [of 0]
  by blast

text \<open>The polynomial that is solved, in general and on the weak acid.\<close>

lemma map2_zeros_add:
  "length P = n \<Longrightarrow> map2 (+) (map real_of_int (replicate n 0)) P = P"
  by (induction P arbitrary: n) auto

lemma add_into_whole:
  assumes "length vals = length poly" and "length poly < k"
  shows "add_into poly k vals = Inr (map2 (\<lambda>a v. trunc (real_of_int a + v)) poly vals)"
proof -
  have t: "take k poly = poly" using assms(2) by simp
  have "map trunc (map2 (+) (map real_of_int poly) vals)
        = map2 (\<lambda>a v. trunc (real_of_int a + v)) poly vals"
    by (simp add: zip_map1 map_prod_def split_def)
  then show ?thesis
    using assms by (simp add: add_into_def broadcast2_def assign_prefix_def t Let_def)
qed

lemma poly_of_equal_length:
  assumes "length P = length Q" and "P \<noteq> []"
  shows "poly_of P Q = Inr (map2 (\<lambda>p q. trunc (real_of_int (trunc p) + q)) P Q)"
proof -
  have n: "max (length P) (Suc 0) = length P" using assms(2) by (cases P) simp_all
  have a1: "add_into (replicate (length P) 0) (length P + 1) P = Inr (map trunc P)"
  proof -
    have "map2 (\<lambda>a v. trunc (real_of_int a + v)) (replicate (length P) 0) P = map trunc P"
      by (induction P) auto
    then show ?thesis
      using add_into_whole [of P "replicate (length P) 0" "length P + 1"] by simp
  qed
  have a2: "add_into (map trunc P) (length Q + 1) Q
            = Inr (map2 (\<lambda>a v. trunc (real_of_int a + v)) (map trunc P) Q)"
    using add_into_whole [of Q "map trunc P" "length Q + 1"] assms(1) by simp
  have "map2 (\<lambda>a v. trunc (real_of_int a + v)) (map trunc P) Q
        = map2 (\<lambda>p q. trunc (real_of_int (trunc p) + q)) P Q"
    by (simp add: zip_map1 map_prod_def split_def)
  with a1 a2 show ?thesis by (simp add: poly_of_def n)
qed

lemma padded_PQ_lengths:
  assumes "padded_PQ obj I = Inr (P, Q)"
  shows "length P = length Q \<and> P \<noteq> []"
proof -
  from assms obtain m LMat PMat where m: "MaxCol_of (ions obj) = Inr m"
    and LMat: "LMat_rows m I (ions obj) = Inr LMat"
    and PMat: "P_rows obj m LMat [0..<length (concentrations obj)] = Inr PMat"
    and PQ: "(P, Q) = pad (P_of PMat (concentrations obj)) (Q_of obj I LMat)
                        (SizeDiff_of (Q_of obj I LMat) PMat)"
    by (auto simp: padded_PQ_def Let_def split: sum.splits)
  from LMat_rows_shape [OF LMat]
  have sh: "\<forall>row \<in> set LMat. length row = m" "length LMat = length (ions obj)"
    by simp_all
  have w: "PMat_width PMat \<le> length (convolve_rows LMat) + 1"
    using P_rows_shape [OF PMat sh] by (rule PMat_width_le)
  have lq: "length (Q_of obj I LMat) = length (convolve_rows LMat) + 2"
    by (rule length_Q_of)
  have sd: "SizeDiff_of (Q_of obj I LMat) PMat
            = int (length (Q_of obj I LMat) - PMat_width PMat)"
    and pos: "PMat_width PMat < length (Q_of obj I LMat)"
    using w lq by (simp_all add: SizeDiff_of_def)
  have P: "P = P_of PMat (concentrations obj)
                 @ replicate (length (Q_of obj I LMat) - PMat_width PMat) 0"
    and Q: "Q = Q_of obj I LMat"
    using PQ pos by (simp_all add: pad_def sd)
  have "length P = length Q" using P Q pos by (simp add: length_P_of)
  moreover have "P \<noteq> []" using P pos by simp
  ultimately show ?thesis by simp
qed

lemma combined_polynomial_truncated:
  assumes "padded_PQ obj I = Inr (P, Q)"
  shows "combined_polynomial obj I
         = Inr (rev (map2 (\<lambda>p q. trunc (real_of_int (trunc p) + q)) P Q))"
  using padded_PQ_lengths [OF assms] assms
  by (simp add: combined_polynomial_def poly_of_equal_length)

lemma cubic_positive_root_exists:
  fixes a b d :: real
  assumes "0 < d" and "b + d < 1 + a"
  shows "\<exists>c. 0 < c \<and> ((c + a) * c - b) * c - d = 0"
proof -
  let ?f = "\<lambda>x::real. ((x + a) * x - b) * x - d"
  have "\<exists>x. 0 \<le> x \<and> x \<le> 1 \<and> ?f x = 0"
  proof (rule IVT')
    show "?f 0 \<le> 0" using assms(1) by simp
    show "0 \<le> ?f 1" using assms(2) by simp
    show "(0::real) \<le> 1" by simp
    show "continuous_on {0..1} ?f" by (intro continuous_intros)
  qed
  then obtain c where c: "0 \<le> c" "?f c = 0" by blast
  have "c \<noteq> 0" using c(2) assms(1) by auto
  with c show ?thesis by (intro exI [of _ c]) simp
qed

lemma cubic_positive_root_unique:
  fixes a b d x y :: real
  assumes "0 < a" and "0 < d"
    and x: "0 < x" "((x + a) * x - b) * x - d = 0"
    and y: "0 < y" "((y + a) * y - b) * y - d = 0"
  shows "x = y"
proof (rule ccontr)
  assume ne: "x \<noteq> y"
  have "((x + a) * x - b) * x = d" using x(2) by simp
  then have "0 < ((x + a) * x - b) * x" using assms(2) by simp
  then have px: "0 < (x + a) * x - b"
    using x(1) by (simp add: zero_less_mult_iff)
  have "(x - y) * ((x + a) * x - b + x * y + y * y + a * y) = 0"
    using x(2) y(2) by algebra
  with ne have e: "(x + a) * x - b + x * y + y * y + a * y = 0" by simp
  have "0 < x * y" "0 < y * y" "0 < a * y"
    using x(1) y(1) assms(1) by simp_all
  with px e show False by linarith
qed

lemma poly_value_cubic:
  "poly_value [1, a, - b, - d] x = ((x + a) * x - b) * x - d"
  by (simp add: poly_value_def)

lemma ions_WA: "ions weak_acid_solution = [weak_acid]"
  "concentrations weak_acid_solution = [1 / 10]"
  "Kw_eff weak_acid_solution = (\<lambda>I. 1 / 10 ^ 14)"
  by (simp_all add: weak_acid_solution_def sample_solution_def)

lemma fields_WA: "z weak_acid = [- 1]" "z0 weak_acid = [- 1, 0]"
  "L weak_acid = (\<lambda>I. [1 / 10 ^ 5, 1])"
  by (simp_all add: weak_acid_def sample_ion_def)

lemma MaxCol_WA: "MaxCol_of [weak_acid] = Inr 2"
  by (simp add: MaxCol_of_def fields_WA)

lemma LMat_WA: "LMat_rows 2 I [weak_acid] = Inr [[1 / 100000, 1]]"
  by (simp add: fields_WA assign_prefix_def)

lemma Q_WA:
  "Q_of weak_acid_solution I [[1 / 100000, 1]]
   = [- (1 / 10000000000000000000), - (1 / 100000000000000), 1 / 100000, 1]"
  by (simp add: Q_of_def convolve_rows_def ions_WA convolve_def upt_unfold)

lemma P_row_WA: "P_row weak_acid_solution 2 [[1 / 100000, 1]] 0 = Inr [0, - (1 / 100000), 0]"
  by (simp add: P_row_def ions_WA fields_WA assign_prefix_def convolve_rows_def)
     (simp add: convolve_def upt_unfold)

lemma padded_WA:
  "padded_PQ weak_acid_solution I =
     Inr ([0, - (1 / 1000000), 0, 0],
          [- (1 / 10000000000000000000), - (1 / 100000000000000), 1 / 100000, 1])"
  unfolding padded_PQ_def ions_WA MaxCol_WA sum.case LMat_WA Let_def Q_WA
  by (simp add: P_row_WA upt_unfold P_of_def PMat_width_def SizeDiff_of_def pad_def)

lemma spec_polynomial_WA:
  "spec_polynomial weak_acid_solution I
   = Inr [1, 1 / 10 ^ 5, - (100000001 / 10 ^ 14), - (1 / 10 ^ 19)]"
  by (simp add: spec_polynomial_def padded_WA)

lemma trunc_small: "\<bar>x\<bar> < 1 \<Longrightarrow> trunc x = 0"
  unfolding trunc_def by (auto simp: floor_eq_iff ceiling_eq_iff)

lemma trunc_one: "trunc 1 = 1"
  by (simp add: trunc_def)

lemma combined_polynomial_WA: "combined_polynomial weak_acid_solution I = Inr [1, 0, 0, 0]"
  by (simp add: combined_polynomial_truncated [OF padded_WA] trunc_small trunc_one)

lemma no_physical_root_of_cube:
  assumes "returns_roots roots [1, 0, 0, 0]"
  shows "filter physical (roots [1, 0, 0, 0]) = []"
proof -
  have "\<not> physical r" if "r \<in> set (roots [1, 0, 0, 0])" for r
  proof -
    have "poly_value (map complex_of_int [1, 0, 0, 0]) r = 0"
      using assms that by (simp add: returns_roots_def list_all_iff)
    then have "r = 0" by (simp add: poly_value_def)
    then show ?thesis by (simp add: physical_def)
  qed
  then show ?thesis by (simp add: filter_empty_conv)
qed

text \<open>
  Claim C3 does not hold of the code. The polynomial handed to the root finder is not the
  coefficient-wise sum of \<open>P\<close> and \<open>Q\<close> but that sum rounded toward zero, coefficient by
  coefficient, because it is stored into an array of integers. For the weak acid the
  sum has exactly one strictly positive real root, so the claim has \<open>calc_pH\<close> return
  the pH of that root; the rounded polynomial is \<open>x^3\<close>, a root finder that returns only
  roots of it returns none that is positive, and \<open>calc_pH\<close> raises \<open>IndexError\<close>.
\<close>

theorem calc_pH_truncates_coefficients:
  assumes "returns_roots roots [1, 0, 0, 0]"
  shows "(\<forall>obj I P Q. padded_PQ obj I = Inr (P, Q) \<longrightarrow>
            spec_polynomial obj I = Inr (rev (map2 (+) P Q))
            \<and> combined_polynomial obj I
                = Inr (rev (map2 (\<lambda>p q. trunc (real_of_int (trunc p) + q)) P Q)))
       \<and> spec_polynomial weak_acid_solution 0
           = Inr [1, 1 / 10 ^ 5, - (100000001 / 10 ^ 14), - (1 / 10 ^ 19)]
       \<and> (\<exists>c::real. 0 < c
              \<and> poly_value [1, 1 / 10 ^ 5, - (100000001 / 10 ^ 14), - (1 / 10 ^ 19)] c = 0
              \<and> (\<forall>c'. 0 < c'
                     \<and> poly_value [1, 1 / 10 ^ 5, - (100000001 / 10 ^ 14), - (1 / 10 ^ 19)] c' = 0
                     \<longrightarrow> c' = c))
       \<and> combined_polynomial weak_acid_solution 0 = Inr [1, 0, 0, 0]
       \<and> calc_pH roots weak_acid_solution 0 = Inl IndexError"
proof -
  have general: "\<forall>obj I P Q. padded_PQ obj I = Inr (P, Q) \<longrightarrow>
            spec_polynomial obj I = Inr (rev (map2 (+) P Q))
            \<and> combined_polynomial obj I
                = Inr (rev (map2 (\<lambda>p q. trunc (real_of_int (trunc p) + q)) P Q))"
    by (simp add: spec_polynomial_def combined_polynomial_truncated)
  let ?a = "1 / 10 ^ 5 :: real" and ?b = "100000001 / 10 ^ 14 :: real"
    and ?d = "1 / 10 ^ 19 :: real"
  obtain c where c: "0 < c" "((c + ?a) * c - ?b) * c - ?d = 0"
    using cubic_positive_root_exists [of ?d ?b ?a] by auto
  have uniq: "c' = c" if "0 < c'" "((c' + ?a) * c' - ?b) * c' - ?d = 0" for c'
    using cubic_positive_root_unique [of ?a ?d c' ?b c] that c by simp
  have root: "\<exists>c::real. 0 < c \<and> poly_value [1, ?a, - ?b, - ?d] c = 0
                \<and> (\<forall>c'. 0 < c' \<and> poly_value [1, ?a, - ?b, - ?d] c' = 0 \<longrightarrow> c' = c)"
    unfolding poly_value_cubic using c uniq by blast
  have raise: "calc_pH roots weak_acid_solution 0 = Inl IndexError"
    by (simp add: calc_pH_def combined_polynomial_WA no_physical_root_of_cube [OF assms])
  from general spec_polynomial_WA [of 0] root combined_polynomial_WA [of 0] raise
  show ?thesis by blast
qed

theorem calc_pH_truncates_coefficients_witness:
  "returns_roots (\<lambda>p. [0, 0, 0]) [1, 0, 0, 0]
   \<and> combined_polynomial weak_acid_solution 0 = Inr [1, 0, 0, 0]
   \<and> calc_pH (\<lambda>p. [0, 0, 0]) weak_acid_solution 0 = Inl IndexError"
proof -
  have r: "returns_roots (\<lambda>p. [0, 0, 0]) [1, 0, 0, 0]"
    by (simp add: returns_roots_def poly_value_def)
  from calc_pH_truncates_coefficients [OF r] r show ?thesis by blast
qed

end
